theory Spec2Isabelle
  imports Main "HOL-Library.Sublist"
begin

section \<open>Strings\<close>

text \<open>
  A Python string is modelled by the list of the bytes of its UTF-8 encoding, so an
  ASCII character is one \<open>char\<close> and any other character two to four.
\<close>

datatype exn = ValueError | OSError | OverflowError | IndexError | ParseError | StorageError

text \<open>
  \<open>s.lower()\<close> on ASCII letters.  Bytes of a non-ASCII character stay as they are; the
  only use is the comparison of a suffix with the ASCII literal \<open>.ffs_batch\<close>.
\<close>

definition char_lower :: "char \<Rightarrow> char" where
  "char_lower c =
     (if (65::nat) \<le> of_char c \<and> of_char c \<le> (90::nat) then char_of (of_char c + (32::nat)) else c)"

definition lower :: "string \<Rightarrow> string" where
  "lower s = map char_lower s"

text \<open>
  The characters \<open>str.strip()\<close> removes are those for which \<open>str.isspace\<close> holds:
  U+0009 to U+000D, U+001C to U+0020, U+0085, U+00A0, U+1680, U+2000 to U+200A, U+2028,
  U+2029, U+202F, U+205F and U+3000, here in their UTF-8 encodings.
\<close>

definition whitespace_chars :: "string list" where
  "whitespace_chars =
     [[CHR 0x09], [CHR 0x0A], [CHR 0x0B], [CHR 0x0C], [CHR 0x0D],
      [CHR 0x1C], [CHR 0x1D], [CHR 0x1E], [CHR 0x1F], [CHR 0x20],
      [CHR 0xC2, CHR 0x85], [CHR 0xC2, CHR 0xA0],
      [CHR 0xE1, CHR 0x9A, CHR 0x80],
      [CHR 0xE2, CHR 0x80, CHR 0x80], [CHR 0xE2, CHR 0x80, CHR 0x81],
      [CHR 0xE2, CHR 0x80, CHR 0x82], [CHR 0xE2, CHR 0x80, CHR 0x83],
      [CHR 0xE2, CHR 0x80, CHR 0x84], [CHR 0xE2, CHR 0x80, CHR 0x85],
      [CHR 0xE2, CHR 0x80, CHR 0x86], [CHR 0xE2, CHR 0x80, CHR 0x87],
      [CHR 0xE2, CHR 0x80, CHR 0x88], [CHR 0xE2, CHR 0x80, CHR 0x89],
      [CHR 0xE2, CHR 0x80, CHR 0x8A],
      [CHR 0xE2, CHR 0x80, CHR 0xA8], [CHR 0xE2, CHR 0x80, CHR 0xA9],
      [CHR 0xE2, CHR 0x80, CHR 0xAF],
      [CHR 0xE2, CHR 0x81, CHR 0x9F],
      [CHR 0xE3, CHR 0x80, CHR 0x80]]"

text \<open>The number of bytes of the white-space character a string starts or ends with, if any.\<close>

definition leading_space :: "string \<Rightarrow> nat" where
  "leading_space s =
     (case List.find (\<lambda>w. prefix w s) whitespace_chars of None \<Rightarrow> 0 | Some w \<Rightarrow> length w)"

definition trailing_space :: "string \<Rightarrow> nat" where
  "trailing_space s =
     (case List.find (\<lambda>w. suffix w s) whitespace_chars of None \<Rightarrow> 0 | Some w \<Rightarrow> length w)"

function lstrip :: "string \<Rightarrow> string" where
  "lstrip s = (if leading_space s = 0 then s else lstrip (drop (leading_space s) s))"
  by pat_completeness auto
termination
proof (relation "measure length")
  show "wf (measure length)" by simp
next
  fix s :: string
  assume a: "leading_space s \<noteq> 0"
  then obtain w where f: "List.find (\<lambda>w. prefix w s) whitespace_chars = Some w"
    by (auto simp: leading_space_def split: option.splits)
  then have "prefix w s" by (auto simp: find_Some_iff)
  then have "length w \<le> length s" by (rule prefix_length_le)
  moreover from a f have "0 < length w" by (simp add: leading_space_def)
  ultimately have "0 < length s" by (cases s) auto
  with a show "(drop (leading_space s) s, s) \<in> measure length" by simp
qed

function rstrip :: "string \<Rightarrow> string" where
  "rstrip s =
     (if trailing_space s = 0 then s else rstrip (take (length s - trailing_space s) s))"
  by pat_completeness auto
termination
proof (relation "measure length")
  show "wf (measure length)" by simp
next
  fix s :: string
  assume a: "trailing_space s \<noteq> 0"
  then obtain w where f: "List.find (\<lambda>w. suffix w s) whitespace_chars = Some w"
    by (auto simp: trailing_space_def split: option.splits)
  then have "suffix w s" by (auto simp: find_Some_iff)
  then have "length w \<le> length s" by (rule suffix_length_le)
  moreover from a f have "0 < length w" by (simp add: trailing_space_def)
  ultimately have "0 < length s" by (cases s) auto
  with a show "(take (length s - trailing_space s) s, s) \<in> measure length" by simp
qed

definition strip :: "string \<Rightarrow> string" where
  "strip s = rstrip (lstrip s)"

section \<open>The platform\<close>

text \<open>
  The program reaches paths through \<open>pathlib\<close> and \<open>os.path\<close>.  What these compute
  depends on the operating system (the program imports Windows modules, so \<open>Path\<close> is
  \<open>WindowsPath\<close> and \<open>os.path\<close> is \<open>ntpath\<close>) and on the version of the library, so
  they are parameters of the model: \<open>'p\<close> is the type of path objects.
  \<open>relative_to\<close> is \<open>None\<close> where the library raises \<open>ValueError\<close>.  The string
  functions \<open>basename\<close>, \<open>dirname\<close> and \<open>splitext\<close> are those of \<open>os.path\<close>.
\<close>

record 'p platform =
  Path :: "string \<Rightarrow> 'p"
  path_str :: "'p \<Rightarrow> string"
  relative_to :: "'p \<Rightarrow> 'p \<Rightarrow> 'p option"
  joinpath :: "'p \<Rightarrow> 'p \<Rightarrow> 'p"
  parent :: "'p \<Rightarrow> 'p"
  path_stem :: "'p \<Rightarrow> string"
  path_suffix :: "'p \<Rightarrow> string"
  basename :: "string \<Rightarrow> string"
  dirname :: "string \<Rightarrow> string"
  splitext :: "string \<Rightarrow> string \<times> string"

section \<open>The filesystem\<close>

text \<open>
  One snapshot of what the program reads from the machine.  \<open>fs_exists\<close> is
  \<open>os.path.exists\<close>; \<open>fs_mtime\<close> and \<open>fs_size\<close> are what \<open>os.path.getmtime\<close> and
  \<open>os.path.getsize\<close> return for an existing file.  A time stamp is an opaque number: the
  program only hands it to \<open>datetime.fromtimestamp\<close>, which turns it into a naive
  local \<open>datetime\<close> or raises (\<open>ValueError\<close>, \<open>OverflowError\<close> or \<open>OSError\<close>) when
  the value is out of range.  A \<open>datetime\<close> is modelled by its position on the local
  calendar in microseconds, the order in which naive values compare.
  \<open>fs_glob folder pattern\<close> is \<open>list(folder.glob(pattern))\<close>, which can raise as
  well, and \<open>fs_resolve p\<close> is \<open>str(Path(p).resolve())\<close>.
\<close>

type_synonym timestamp = int
type_synonym datetime = int

record 'p filesystem =
  fs_exists :: "string \<Rightarrow> bool"
  fs_mtime :: "string \<Rightarrow> timestamp"
  fs_size :: "string \<Rightarrow> nat"
  fs_fromtimestamp :: "timestamp \<Rightarrow> exn + datetime"
  fs_glob :: "'p \<Rightarrow> string \<Rightarrow> exn + 'p list"
  fs_resolve :: "string \<Rightarrow> string"

text \<open>\<open>os.path.getmtime\<close> and \<open>os.path.getsize\<close> raise \<open>OSError\<close> on a missing file.\<close>

definition getmtime :: "('p, 'z) filesystem_scheme \<Rightarrow> string \<Rightarrow> exn + timestamp" where
  "getmtime fs p = (if fs_exists fs p then Inr (fs_mtime fs p) else Inl OSError)"

definition getsize :: "('p, 'z) filesystem_scheme \<Rightarrow> string \<Rightarrow> exn + nat" where
  "getsize fs p = (if fs_exists fs p then Inr (fs_size fs p) else Inl OSError)"

text \<open>\<open>datetime.fromtimestamp(os.path.getmtime(p))\<close>\<close>

definition modified :: "('p, 'z) filesystem_scheme \<Rightarrow> string \<Rightarrow> exn + datetime" where
  "modified fs p =
     (case getmtime fs p of
        Inl e \<Rightarrow> Inl e
      | Inr t \<Rightarrow> fs_fromtimestamp fs t)"

section \<open>Sync pairs and history items\<close>

text \<open>
  \<open>versioning_folder\<close> is \<open>None\<close> when the configuration has a
  \<open>VersioningFolder\<close> element without text.  \<open>sync_policy\<close> maps a side to its
  \<open>create\<close>, \<open>update\<close> and \<open>delete\<close> settings.
\<close>

record SyncPair =
  name :: string
  left_path :: string
  right_path :: string
  versioning_folder :: "string option"
  sync_policy :: "(string \<times> (string \<times> string) list) list"
  include_patterns :: "string list"
  exclude_patterns :: "string list"
  sync_config_path :: string

text \<open>\<open>SyncPair.__eq__\<close> compares the configuration path only.\<close>

definition pair_eq :: "SyncPair \<Rightarrow> SyncPair \<Rightarrow> bool" where
  "pair_eq a b = (sync_config_path a = sync_config_path b)"

text \<open>
  The \<open>version\<close> labels are Chinese string literals in the source: "source file",
  "synced file" and "history version" in \<open>load_file_history\<close>, "right side", "left
  side" and "history version" in \<open>FFSConfigParser.get_file_history\<close>.
\<close>

datatype version_label = SourceFile | SyncedFile | HistoryVersion | RightSide | LeftSide

record FileHistoryItem =
  file_name :: string
  modified_time :: datetime
  file_size :: nat
  version :: version_label
  file_path :: string
  folder_path :: string
  sync_pair :: SyncPair
  is_source :: bool
  is_synced :: bool
  file_hash :: "string option"
  remarks :: "string option"

text \<open>
  The construction of one item reads the time and the size of the file: it raises when
  the file is missing or its time stamp cannot be converted.
\<close>

definition make_item ::
  "'p platform \<Rightarrow> ('p, 'z) filesystem_scheme \<Rightarrow> string \<Rightarrow> version_label \<Rightarrow> SyncPair \<Rightarrow>
   bool \<Rightarrow> bool \<Rightarrow> exn + FileHistoryItem" where
  "make_item lib fs p v pair src syn =
     (case modified fs p of
        Inl e \<Rightarrow> Inl e
      | Inr t \<Rightarrow>
          (case getsize fs p of
             Inl e \<Rightarrow> Inl e
           | Inr sz \<Rightarrow>
               Inr \<lparr>file_name = basename lib p, modified_time = t, file_size = sz, version = v,
                    file_path = p, folder_path = dirname lib p, sync_pair = pair,
                    is_source = src, is_synced = syn, file_hash = None, remarks = None\<rparr>))"

section \<open>The path manager\<close>

datatype handler = LocalPathHandler | SMTPathHandler | FTPPathHandler

text \<open>\<open>PathManager.get_handler\<close>: the prefix of the path selects the handler.\<close>

definition get_handler :: "string \<Rightarrow> handler" where
  "get_handler path =
     (if prefix ''//'' path \<or> prefix [CHR 0x5C, CHR 0x5C] path then SMTPathHandler
      else if prefix ''ftp://'' path then FTPPathHandler
      else LocalPathHandler)"

text \<open>
  \<open>PathManager.is_valid\<close>: only the local handler probes the filesystem; the other
  two answer \<open>True\<close>.
\<close>

definition is_valid :: "('p, 'z) filesystem_scheme \<Rightarrow> string \<Rightarrow> bool" where
  "is_valid fs path =
     (case get_handler path of
        LocalPathHandler \<Rightarrow> fs_exists fs path
      | SMTPathHandler \<Rightarrow> True
      | FTPPathHandler \<Rightarrow> True)"

section \<open>History resolution\<close>

text \<open>
  \<open>list.sort(key=..., reverse=True)\<close>: the list is reversed, sorted stably in
  ascending order and reversed again.
\<close>

definition sort_reverse :: "('a \<Rightarrow> 'k::linorder) \<Rightarrow> 'a list \<Rightarrow> 'a list" where
  "sort_reverse key xs = rev (sort_key key (rev xs))"

text \<open>
  The loop over the files found in the versioning folder.  It returns the items it
  appended and the exception that ended it, if any.
\<close>

fun versioning_loop ::
  "'p platform \<Rightarrow> ('p, 'z) filesystem_scheme \<Rightarrow> SyncPair \<Rightarrow> 'p list \<Rightarrow>
   FileHistoryItem list \<times> exn option" where
  "versioning_loop lib fs pair [] = ([], None)"
| "versioning_loop lib fs pair (vf # vfs) =
     (if fs_exists fs (path_str lib vf) then
        (case make_item lib fs (path_str lib vf) HistoryVersion pair False False of
           Inl e \<Rightarrow> ([], Some e)
         | Inr item \<Rightarrow>
             (case versioning_loop lib fs pair vfs of (items, r) \<Rightarrow> (item # items, r)))
      else versioning_loop lib fs pair vfs)"

definition versioning_pattern :: "'p platform \<Rightarrow> string \<Rightarrow> string" where
  "versioning_pattern lib base_name =
     base_name @ '' [0-9][0-9][0-9][0-9]-[0-9][0-9]-[0-9][0-9] [0-9][0-9][0-9][0-9][0-9][0-9]''
       @ snd (splitext lib base_name)"

definition versioning_items ::
  "'p platform \<Rightarrow> ('p, 'z) filesystem_scheme \<Rightarrow> SyncPair \<Rightarrow> 'p \<Rightarrow>
   FileHistoryItem list \<times> exn option" where
  "versioning_items lib fs pair relative_path =
     (case versioning_folder pair of
        None \<Rightarrow> ([], None)
      | Some v \<Rightarrow>
          if v = [] then ([], None)
          else
            (let versioning_path_folder = parent lib (joinpath lib (Path lib v) relative_path);
                 base_name = basename lib (path_str lib relative_path)
             in case fs_glob fs versioning_path_folder (versioning_pattern lib base_name) of
                  Inl e \<Rightarrow> ([], Some e)
                | Inr versioning_files \<Rightarrow> versioning_loop lib fs pair versioning_files))"

text \<open>
  One iteration of the loop over the sync pairs: the items it appends to
  \<open>history_data\<close> and whether it sets \<open>has_matched\<close>.  An exception ends the
  iteration; what was appended before it stays.
\<close>

definition scan_pair ::
  "'p platform \<Rightarrow> ('p, 'z) filesystem_scheme \<Rightarrow> string \<Rightarrow> SyncPair \<Rightarrow>
   FileHistoryItem list \<times> bool" where
  "scan_pair lib fs fpath pair =
     (let left_base_obj = Path lib (left_path pair)
      in case relative_to lib (Path lib fpath) left_base_obj of
           None \<Rightarrow> ([], False)
         | Some relative_path \<Rightarrow>
             (let matched = (fpath = path_str lib (joinpath lib left_base_obj relative_path))
              in case (if matched
                       then (case make_item lib fs fpath SourceFile pair True True of
                               Inl e \<Rightarrow> Inl e | Inr item \<Rightarrow> Inr [item])
                       else Inr [])
                 of Inl e \<Rightarrow> ([], matched)
                  | Inr src \<Rightarrow>
                      (let rpath = path_str lib
                             (joinpath lib (Path lib (right_path pair)) relative_path)
                       in case (if fs_exists fs rpath
                                then (case make_item lib fs rpath SyncedFile pair False True of
                                        Inl e \<Rightarrow> Inl e | Inr item \<Rightarrow> Inr [item])
                                else Inr [])
                          of Inl e \<Rightarrow> (src, matched)
                           | Inr mir \<Rightarrow>
                               (src @ mir @ fst (versioning_items lib fs pair relative_path),
                                matched))))"

fun scan_pairs ::
  "'p platform \<Rightarrow> ('p, 'z) filesystem_scheme \<Rightarrow> string \<Rightarrow> SyncPair list \<Rightarrow>
   FileHistoryItem list \<times> bool \<Rightarrow> FileHistoryItem list \<times> bool" where
  "scan_pairs lib fs fpath [] acc = acc"
| "scan_pairs lib fs fpath (pair # pairs) (history_data, has_matched) =
     (case scan_pair lib fs fpath pair of
        (items, hit) \<Rightarrow>
          scan_pairs lib fs fpath pairs (history_data @ items, has_matched \<or> hit))"

text \<open>The module-level cache \<open>FILE_HISTORY_CACHE\<close>, a dictionary keyed by the path string.\<close>

type_synonym history_cache = "string \<rightharpoonup> (FileHistoryItem list \<times> bool)"

definition clear_file_history_cache :: "string option \<Rightarrow> history_cache \<Rightarrow> history_cache" where
  "clear_file_history_cache fpath cache =
     (case fpath of
        None \<Rightarrow> Map.empty
      | Some p \<Rightarrow> (if p \<in> dom cache then cache(p := None) else cache))"

text \<open>What a run computes when the cache does not answer.\<close>

definition resolve_uncached ::
  "'p platform \<Rightarrow> ('p, 'z) filesystem_scheme \<Rightarrow> string \<Rightarrow> SyncPair list \<Rightarrow>
   FileHistoryItem list \<times> bool" where
  "resolve_uncached lib fs fpath sync_pairs =
     (case scan_pairs lib fs fpath sync_pairs ([], False) of
        (history_data, has_matched) \<Rightarrow> (sort_reverse modified_time history_data, has_matched))"

text \<open>\<open>load_file_history\<close>: the result and the cache after the call.\<close>

definition load_file_history ::
  "'p platform \<Rightarrow> ('p, 'z) filesystem_scheme \<Rightarrow> history_cache \<Rightarrow> string \<Rightarrow>
   SyncPair list \<Rightarrow> (FileHistoryItem list \<times> bool) \<times> history_cache" where
  "load_file_history lib fs cache fpath sync_pairs =
     (if \<not> is_valid fs fpath then (([], False), cache)
      else case cache fpath of
             Some r \<Rightarrow> (r, cache)
           | None \<Rightarrow>
               (let r = resolve_uncached lib fs fpath sync_pairs
                in (r, cache(fpath \<mapsto> r))))"

section \<open>The history lookup of the configuration parser\<close>

text \<open>\<open>FFSConfigParser.get_file_history\<close> returns dictionaries with five keys.\<close>

record history_entry =
  he_file_name :: string
  he_modified_time :: datetime
  he_version :: version_label
  he_file_path :: string
  he_folder_path :: string

text \<open>\<open>_create_history_item\<close> raises like the construction of an item above.\<close>

definition create_history_item ::
  "'p platform \<Rightarrow> ('p, 'z) filesystem_scheme \<Rightarrow> string \<Rightarrow> version_label \<Rightarrow>
   exn + history_entry" where
  "create_history_item lib fs p v =
     (case modified fs p of
        Inl e \<Rightarrow> Inl e
      | Inr t \<Rightarrow>
          Inr \<lparr>he_file_name = basename lib p, he_modified_time = t, he_version = v,
               he_file_path = p, he_folder_path = dirname lib p\<rparr>)"

text \<open>
  The counterpart of a file below \<open>base\<close> in \<open>other_base\<close>.  Every exception in
  this part is caught and the pair skipped.
\<close>

definition counterpart_items ::
  "'p platform \<Rightarrow> ('p, 'z) filesystem_scheme \<Rightarrow> string \<Rightarrow> string \<Rightarrow> string \<Rightarrow>
   version_label \<Rightarrow> history_entry list" where
  "counterpart_items lib fs fpath base other_base v =
     (case relative_to lib (Path lib fpath) (Path lib base) of
        None \<Rightarrow> []
      | Some relative_path \<Rightarrow>
          (let other_path = path_str lib (joinpath lib (Path lib other_base) relative_path)
           in if fs_exists fs other_path
              then (case create_history_item lib fs other_path v of
                      Inl e \<Rightarrow> []
                    | Inr item \<Rightarrow> [item])
              else []))"

text \<open>
  One iteration of the loop over the sync pairs, for the resolved path.  The item of the
  versioning branch is built outside the \<open>try\<close> block, so its exception leaves the
  function.
\<close>

definition history_of_pair ::
  "'p platform \<Rightarrow> ('p, 'z) filesystem_scheme \<Rightarrow> string \<Rightarrow> SyncPair \<Rightarrow>
   exn + history_entry list" where
  "history_of_pair lib fs fpath pair =
     (let left_base = fs_resolve fs (left_path pair);
          right_base = fs_resolve fs (right_path pair);
          versioning_base =
            (case versioning_folder pair of
               None \<Rightarrow> []
             | Some v \<Rightarrow> if v = [] then [] else fs_resolve fs v)
      in if versioning_base \<noteq> [] \<and> prefix versioning_base fpath then
           (case create_history_item lib fs fpath HistoryVersion of
              Inl e \<Rightarrow> Inl e
            | Inr item \<Rightarrow> Inr [item])
         else if prefix left_base fpath then
           Inr (counterpart_items lib fs fpath left_base right_base RightSide)
         else if prefix right_base fpath then
           Inr (counterpart_items lib fs fpath right_base left_base LeftSide)
         else Inr [])"

fun history_loop ::
  "'p platform \<Rightarrow> ('p, 'z) filesystem_scheme \<Rightarrow> string \<Rightarrow> SyncPair list \<Rightarrow>
   exn + history_entry list" where
  "history_loop lib fs fpath [] = Inr []"
| "history_loop lib fs fpath (pair # pairs) =
     (case history_of_pair lib fs fpath pair of
        Inl e \<Rightarrow> Inl e
      | Inr items \<Rightarrow>
          (case history_loop lib fs fpath pairs of
             Inl e \<Rightarrow> Inl e
           | Inr rest \<Rightarrow> Inr (items @ rest)))"

definition get_file_history ::
  "'p platform \<Rightarrow> ('p, 'z) filesystem_scheme \<Rightarrow> SyncPair list \<Rightarrow> string \<Rightarrow>
   exn + history_entry list" where
  "get_file_history lib fs sync_pairs fpath =
     history_loop lib fs (fs_resolve fs fpath) sync_pairs"

section \<open>Configuration files\<close>

text \<open>
  An element of the tree \<open>xml.etree.ElementTree\<close> builds: tag, attributes, text (which
  is \<open>None\<close> for an element without text) and child elements.
\<close>

datatype xml = Element (elem_tag: string) (elem_attrib: "(string \<times> string) list")
  (elem_text: "string option") (elem_children: "xml list")

text \<open>\<open>elem.find(tag)\<close> and \<open>elem.findall(tag)\<close> look at the children.\<close>

definition find_child :: "string \<Rightarrow> xml \<Rightarrow> xml option" where
  "find_child t e = List.find (\<lambda>c. elem_tag c = t) (elem_children e)"

definition findall_children :: "string \<Rightarrow> xml \<Rightarrow> xml list" where
  "findall_children t e = filter (\<lambda>c. elem_tag c = t) (elem_children e)"

text \<open>All elements below an element, in document order.\<close>

fun descendants :: "xml \<Rightarrow> xml list" where
  "descendants (Element t a x cs) = concat (map (\<lambda>c. c # descendants c) cs)"

text \<open>\<open>root.find(".//tag")\<close>\<close>

definition find_descendant :: "string \<Rightarrow> xml \<Rightarrow> xml option" where
  "find_descendant t e = List.find (\<lambda>c. elem_tag c = t) (descendants e)"

text \<open>\<open>root.findall(".//FolderPairs/Pair")\<close>\<close>

definition findall_pair_elems :: "xml \<Rightarrow> xml list" where
  "findall_pair_elems e =
     concat (map (findall_children ''Pair'')
       (filter (\<lambda>d. elem_tag d = ''FolderPairs'') (descendants e)))"

text \<open>\<open>elem.get(key, default)\<close>\<close>

definition elem_get :: "xml \<Rightarrow> string \<Rightarrow> string \<Rightarrow> string" where
  "elem_get e k d = (case map_of (elem_attrib e) k of None \<Rightarrow> d | Some v \<Rightarrow> v)"

text \<open>\<open>[item.text for item in elem.findall("Item") if item.text]\<close>\<close>

definition item_texts :: "xml \<Rightarrow> string list" where
  "item_texts e =
     concat (map (\<lambda>item. case elem_text item of
                           None \<Rightarrow> []
                         | Some t \<Rightarrow> if t = [] then [] else [t])
               (findall_children ''Item'' e))"

text \<open>The patterns a \<open>Filter\<close> element adds under \<open>Include\<close> or \<open>Exclude\<close>.\<close>

definition filter_patterns :: "string \<Rightarrow> xml option \<Rightarrow> string list" where
  "filter_patterns kind filter_elem =
     (case filter_elem of
        None \<Rightarrow> []
      | Some f \<Rightarrow> (case find_child kind f of None \<Rightarrow> [] | Some l \<Rightarrow> item_texts l))"

definition read_sync_policy :: "xml \<Rightarrow> (string \<times> (string \<times> string) list) list" where
  "read_sync_policy root =
     (case find_descendant ''Changes'' root of
        None \<Rightarrow> []
      | Some changes \<Rightarrow>
          concat (map (\<lambda>side. case find_child side changes of
                                 None \<Rightarrow> []
                               | Some side_elem \<Rightarrow>
                                   [(side, [(''create'', elem_get side_elem ''Create'' ''none''),
                                            (''update'', elem_get side_elem ''Update'' ''none''),
                                            (''delete'', elem_get side_elem ''Delete'' ''none'')])])
                    [''Left'', ''Right'']))"

text \<open>\<open>elem.text or ""\<close>\<close>

definition text_or_empty :: "xml \<Rightarrow> string" where
  "text_or_empty e = (case elem_text e of None \<Rightarrow> [] | Some t \<Rightarrow> t)"

text \<open>The body of the loop over the \<open>Pair\<close> elements: the pairs one element adds.\<close>

definition read_pair ::
  "string \<Rightarrow> string \<Rightarrow> string option \<Rightarrow> (string \<times> (string \<times> string) list) list \<Rightarrow>
   string list \<Rightarrow> string list \<Rightarrow> xml \<Rightarrow> SyncPair list" where
  "read_pair config_path nm versioning_path policy include_pats exclude_pats pair =
     (case find_child ''Left'' pair of
        None \<Rightarrow> []
      | Some left_elem \<Rightarrow>
          (case find_child ''Right'' pair of
             None \<Rightarrow> []
           | Some right_elem \<Rightarrow>
               [\<lparr>name = nm,
                 left_path = text_or_empty left_elem,
                 right_path = text_or_empty right_elem,
                 versioning_folder = versioning_path,
                 sync_policy = policy,
                 include_patterns =
                   include_pats @ filter_patterns ''Include'' (find_child ''Filter'' pair),
                 exclude_patterns =
                   exclude_pats @ filter_patterns ''Exclude'' (find_child ''Filter'' pair),
                 sync_config_path = config_path\<rparr>]))"

text \<open>
  \<open>FFSConfigParser.parse_config\<close>.  \<open>et_parse\<close> stands for \<open>ET.parse\<close> followed by
  \<open>getroot\<close>: it raises for a file that is missing, unreadable or not well-formed.
  Every exception is caught, and the result is then \<open>None\<close>.
\<close>

definition parse_config ::
  "'p platform \<Rightarrow> (string \<Rightarrow> exn + xml) \<Rightarrow> string \<Rightarrow> SyncPair list option" where
  "parse_config lib et_parse config_path =
     (case et_parse config_path of
        Inl e \<Rightarrow> None
      | Inr root \<Rightarrow>
          (let nm = path_stem lib (Path lib config_path);
               versioning_path =
                 (case find_descendant ''VersioningFolder'' root of
                    None \<Rightarrow> Some []
                  | Some versioning_elem \<Rightarrow> elem_text versioning_elem);
               policy = read_sync_policy root;
               filter_elem = find_descendant ''Filter'' root;
               include_pats = filter_patterns ''Include'' filter_elem;
               exclude_pats = filter_patterns ''Exclude'' filter_elem
           in Some (concat (map (read_pair config_path nm versioning_path policy
                                   include_pats exclude_pats)
                              (findall_pair_elems root)))))"

text \<open>\<open>ConfigParserFactory.create_parser\<close>: the suffix of the file selects the parser.\<close>

datatype parser = FFSConfigParser

definition create_parser :: "'p platform \<Rightarrow> string \<Rightarrow> parser option" where
  "create_parser lib config_path =
     (if lower (path_suffix lib (Path lib config_path)) = ''.ffs_batch'' then Some FFSConfigParser
      else None)"

section \<open>The registry of sync pairs\<close>

text \<open>The attributes \<open>sync_config_paths\<close> and \<open>sync_pairs\<close> of \<open>SyncConfigModel\<close>.\<close>

record SyncConfigModel =
  model_sync_config_paths :: "string set"
  model_sync_pairs :: "SyncPair list"

text \<open>\<open>sync_pair not in self.sync_pairs\<close> compares with \<open>SyncPair.__eq__\<close>.\<close>

definition pair_in :: "SyncPair \<Rightarrow> SyncPair list \<Rightarrow> bool" where
  "pair_in sp registered = list_ex (pair_eq sp) registered"

fun append_new :: "SyncPair list \<Rightarrow> SyncPair list \<Rightarrow> SyncPair list" where
  "append_new registered [] = registered"
| "append_new registered (sp # sps) =
     append_new (if pair_in sp registered then registered else registered @ [sp]) sps"

text \<open>One iteration of the loop of \<open>add_configs\<close>: the pairs afterwards and \<open>success[i]\<close>.\<close>

definition add_config ::
  "'p platform \<Rightarrow> (string \<Rightarrow> exn + xml) \<Rightarrow> SyncPair list \<Rightarrow> string \<Rightarrow>
   SyncPair list \<times> bool" where
  "add_config lib et_parse registered config_path =
     (case create_parser lib config_path of
        None \<Rightarrow> (registered, False)
      | Some FFSConfigParser \<Rightarrow>
          (case parse_config lib et_parse config_path of
             None \<Rightarrow> (registered, False)
           | Some parsed \<Rightarrow> (append_new registered parsed, True)))"

fun add_config_loop ::
  "'p platform \<Rightarrow> (string \<Rightarrow> exn + xml) \<Rightarrow> SyncPair list \<Rightarrow> string list \<Rightarrow>
   SyncPair list \<times> bool list" where
  "add_config_loop lib et_parse registered [] = (registered, [])"
| "add_config_loop lib et_parse registered (config_path # rest) =
     (case add_config lib et_parse registered config_path of
        (registered1, ok) \<Rightarrow>
          (case add_config_loop lib et_parse registered1 rest of
             (registered2, oks) \<Rightarrow> (registered2, ok # oks)))"

text \<open>The argument of \<open>add_configs\<close> is one path or a list of paths.\<close>

datatype config_arg = OnePath string | PathList "string list"

definition arg_paths :: "config_arg \<Rightarrow> string list" where
  "arg_paths a = (case a of OnePath p \<Rightarrow> [p] | PathList ps \<Rightarrow> ps)"

definition add_configs ::
  "'p platform \<Rightarrow> (string \<Rightarrow> exn + xml) \<Rightarrow> SyncConfigModel \<Rightarrow> config_arg \<Rightarrow>
   SyncConfigModel \<times> bool list" where
  "add_configs lib et_parse m config_paths =
     (case add_config_loop lib et_parse (model_sync_pairs m) (arg_paths config_paths) of
        (registered, success) \<Rightarrow>
          (\<lparr>model_sync_config_paths = model_sync_config_paths m \<union> set (arg_paths config_paths),
            model_sync_pairs = registered\<rparr>, success))"

text \<open>
  \<open>remove_config\<close>: the index is \<open>None\<close> when it is not valid, else it carries a
  row; \<open>list.pop\<close> raises \<open>IndexError\<close> for a row outside the list.
\<close>

definition remove_config :: "SyncConfigModel \<Rightarrow> nat option \<Rightarrow> exn + SyncConfigModel" where
  "remove_config m index =
     (case index of
        None \<Rightarrow> Inr m
      | Some row \<Rightarrow>
          if model_sync_pairs m = [] then Inr m
          else if row < length (model_sync_pairs m)
          then Inr (m\<lparr>model_sync_pairs :=
                      take row (model_sync_pairs m) @ drop (Suc row) (model_sync_pairs m)\<rparr>)
          else Inl IndexError)"

text \<open>The states of the registry: empty at first, then changed by the two operations.\<close>

inductive reachable_model :: "'p platform \<Rightarrow> SyncConfigModel \<Rightarrow> bool"
  for lib :: "'p platform" where
  fresh: "reachable_model lib \<lparr>model_sync_config_paths = {}, model_sync_pairs = []\<rparr>"
| added:
    "reachable_model lib m \<Longrightarrow>
       reachable_model lib (fst (add_configs lib et_parse m config_paths))"
| removed:
    "reachable_model lib m \<Longrightarrow> remove_config m index = Inr m' \<Longrightarrow> reachable_model lib m'"

section \<open>The remarks store\<close>

text \<open>
  A row of the table \<open>FileRemarks\<close>.  The fields \<open>file_path\<close>, \<open>file_hash\<close> and
  \<open>remarks\<close> of the source carry the prefix \<open>rec\<close> here.  Times are integers.
\<close>

record FileRemarks =
  rec_id :: nat
  rec_file_path :: string
  rec_file_hash :: string
  rec_remarks :: string
  created_at :: int
  updated_at :: int

text \<open>
  What the store operations read from outside: \<open>resolve_posix\<close> is
  \<open>Path(p).resolve().as_posix()\<close>, \<open>file_digest\<close> the SHA-256 digest of the bytes of
  a file (\<open>None\<close> when the file cannot be read), \<open>now\<close> the clock, and
  \<open>db_available\<close> tells whether the database answers; when it does not, every session
  raises.
\<close>

record remarks_env =
  resolve_posix :: "string \<Rightarrow> string"
  file_digest :: "string \<Rightarrow> string option"
  now :: int
  db_available :: bool

text \<open>\<open>calculate_file_hash\<close> returns the empty string when reading fails.\<close>

definition calculate_file_hash :: "remarks_env \<Rightarrow> string \<Rightarrow> string" where
  "calculate_file_hash env p = (case file_digest env p of None \<Rightarrow> [] | Some d \<Rightarrow> d)"

text \<open>
  The table is the list of its rows in the order of their ids;
  \<open>session.exec(select ... where ...).first()\<close> is the first row that matches.
\<close>

fun update_first :: "('a \<Rightarrow> bool) \<Rightarrow> ('a \<Rightarrow> 'a) \<Rightarrow> 'a list \<Rightarrow> 'a list" where
  "update_first P f [] = []"
| "update_first P f (x # xs) = (if P x then f x # xs else x # update_first P f xs)"

fun remove_first :: "('a \<Rightarrow> bool) \<Rightarrow> 'a list \<Rightarrow> 'a list" where
  "remove_first P [] = []"
| "remove_first P (x # xs) = (if P x then xs else x # remove_first P xs)"

text \<open>The id of an inserted row: one more than the greatest id of the table.\<close>

definition new_id :: "FileRemarks list \<Rightarrow> nat" where
  "new_id rows = Suc (fold max (map rec_id rows) 0)"

definition get_remarks_record :: "remarks_env \<Rightarrow> FileRemarks list \<Rightarrow> string \<Rightarrow> FileRemarks option" where
  "get_remarks_record env rows fpath =
     (if \<not> db_available env then None
      else
        (let normalized_path = resolve_posix env fpath
         in case List.find (\<lambda>r. rec_file_path r = normalized_path) rows of
              Some result \<Rightarrow> Some result
            | None \<Rightarrow>
                (let fhash = calculate_file_hash env fpath
                 in if fhash \<noteq> [] then
                      (case List.find (\<lambda>r. rec_file_hash r = fhash) rows of
                         Some result \<Rightarrow> Some (result\<lparr>rec_file_path := normalized_path\<rparr>)
                       | None \<Rightarrow> None)
                    else None)))"

definition get_remarks :: "remarks_env \<Rightarrow> FileRemarks list \<Rightarrow> string \<Rightarrow> string" where
  "get_remarks env rows fpath =
     (case get_remarks_record env rows fpath of None \<Rightarrow> [] | Some r \<Rightarrow> rec_remarks r)"

text \<open>\<open>delete_remarks\<close>: the table afterwards and the returned flag.\<close>

definition delete_remarks :: "remarks_env \<Rightarrow> FileRemarks list \<Rightarrow> string \<Rightarrow> FileRemarks list \<times> bool" where
  "delete_remarks env rows fpath =
     (if \<not> db_available env then (rows, False)
      else
        (let normalized_path = resolve_posix env fpath
         in case List.find (\<lambda>r. rec_file_path r = normalized_path) rows of
              Some result \<Rightarrow> (remove_first (\<lambda>r. rec_file_path r = normalized_path) rows, True)
            | None \<Rightarrow>
                (let fhash = calculate_file_hash env fpath
                 in if fhash \<noteq> [] then
                      ((case List.find (\<lambda>r. rec_file_hash r = fhash) rows of
                          Some result \<Rightarrow> remove_first (\<lambda>r. rec_file_hash r = fhash) rows
                        | None \<Rightarrow> rows),
                       True)
                    else (rows, False))))"

text \<open>\<open>set_remarks\<close>: the table afterwards and the returned flag.\<close>

definition set_remarks ::
  "remarks_env \<Rightarrow> FileRemarks list \<Rightarrow> string \<Rightarrow> string \<Rightarrow> FileRemarks list \<times> bool" where
  "set_remarks env rows fpath text0 =
     (let txt = strip text0
      in if txt = [] then delete_remarks env rows fpath
         else if \<not> db_available env then (rows, False)
         else
           (let normalized_path = resolve_posix env fpath
            in case List.find (\<lambda>r. rec_file_path r = normalized_path) rows of
                 Some result \<Rightarrow>
                   (update_first (\<lambda>r. rec_file_path r = normalized_path)
                      (\<lambda>r. r\<lparr>rec_remarks := txt, updated_at := now env\<rparr>) rows, True)
               | None \<Rightarrow>
                   (let fhash = calculate_file_hash env fpath
                    in case (if fhash \<noteq> [] then List.find (\<lambda>r. rec_file_hash r = fhash) rows
                             else None) of
                         Some result \<Rightarrow>
                           (update_first (\<lambda>r. rec_file_hash r = fhash)
                              (\<lambda>r. r\<lparr>rec_file_path := normalized_path, rec_remarks := txt,
                                      updated_at := now env\<rparr>) rows, True)
                       | None \<Rightarrow>
                           (rows @ [\<lparr>rec_id = new_id rows, rec_file_path = normalized_path,
                                     rec_file_hash = fhash, rec_remarks = txt,
                                     created_at = now env, updated_at = now env\<rparr>], True))))"

text \<open>The tables the operations can produce from the empty table.\<close>

inductive reachable_store :: "FileRemarks list \<Rightarrow> bool" where
  empty_store: "reachable_store []"
| after_set: "reachable_store rows \<Longrightarrow> reachable_store (fst (set_remarks env rows fpath txt))"
| after_delete: "reachable_store rows \<Longrightarrow> reachable_store (fst (delete_remarks env rows fpath))"


section \<open>A Windows platform for the examples\<close>

text \<open>
  The theorems below hold for every platform.  Their examples run on the following model
  of \<open>PureWindowsPath\<close> and \<open>ntpath\<close> (CPython 3.12), with \<open>str.lower\<close> restricted
  to ASCII letters; the paths of the examples are ASCII.  A path object holds a drive, a
  root and the list of its components.
\<close>

text \<open>
  \<open>p.replace('/', '\\')\<close>.  A string literal of this theory cannot hold a backslash,
  so the examples write \<open>bs ''C:/A/doc.txt''\<close> for the string \<open>C:\A\doc.txt\<close>.
\<close>

definition bs :: "string \<Rightarrow> string" where
  "bs s = map (\<lambda>c. if c = CHR ''/'' then CHR 0x5C else c) s"

text \<open>\<open>s.split(c)\<close> and \<open>c.join(parts)\<close>\<close>

fun split_on :: "char \<Rightarrow> string \<Rightarrow> string list" where
  "split_on d [] = [[]]"
| "split_on d (c # cs) =
     (if c = d then [] # split_on d cs
      else (case split_on d cs of [] \<Rightarrow> [[c]] | w # ws \<Rightarrow> (c # w) # ws))"

fun join_with :: "char \<Rightarrow> string list \<Rightarrow> string" where
  "join_with d [] = []"
| "join_with d [x] = x"
| "join_with d (x # y # ys) = x @ [d] @ join_with d (y # ys)"

text \<open>\<open>s.find(c, start)\<close> and \<open>s.rfind(c)\<close>, the latter \<open>-1\<close> when \<open>c\<close> does not occur.\<close>

definition find_from :: "string \<Rightarrow> char \<Rightarrow> nat \<Rightarrow> nat option" where
  "find_from s c start =
     (let k = length (takeWhile (\<lambda>d. d \<noteq> c) (drop start s))
      in if start + k < length s then Some (start + k) else None)"

definition rfind :: "string \<Rightarrow> char \<Rightarrow> int" where
  "rfind s c =
     (if c \<in> set s then int (length s) - 1 - int (length (takeWhile (\<lambda>d. d \<noteq> c) (rev s)))
      else - 1)"

definition char_upper :: "char \<Rightarrow> char" where
  "char_upper c =
     (if (97::nat) \<le> of_char c \<and> of_char c \<le> (122::nat) then char_of (of_char c - (32::nat)) else c)"

text \<open>\<open>ntpath.splitroot\<close>: drive, root and the rest.\<close>

definition nt_splitroot :: "string \<Rightarrow> string \<times> string \<times> string" where
  "nt_splitroot p =
     (let normp = bs p
      in if take 1 normp = [CHR 0x5C] then
           (if take 1 (drop 1 normp) = [CHR 0x5C] then
              (let start = (if map char_upper (take 8 normp) = bs ''//?/UNC/'' then 8 else 2)
               in case find_from normp (CHR 0x5C) start of
                    None \<Rightarrow> (p, [], [])
                  | Some index \<Rightarrow>
                      (case find_from normp (CHR 0x5C) (index + 1) of
                         None \<Rightarrow> (p, [], [])
                       | Some index2 \<Rightarrow>
                           (take index2 p, take 1 (drop index2 p), drop (index2 + 1) p)))
            else ([], take 1 p, drop 1 p))
         else if take 1 (drop 1 normp) = '':'' then
           (if take 1 (drop 2 normp) = [CHR 0x5C] then (take 2 p, take 1 (drop 2 p), drop 3 p)
            else (take 2 p, [], drop 2 p))
         else ([], [], p))"

record pure_path =
  path_drive :: string
  path_root :: string
  path_tail :: "string list"

text \<open>
  \<open>PureWindowsPath(s)\<close>: separators are unified, a drive of the form
  \<open>\\server\share\<close> gets a root, empty components and \<open>.\<close> components are dropped.
\<close>

definition nt_Path :: "string \<Rightarrow> pure_path" where
  "nt_Path s =
     (if s = [] then \<lparr>path_drive = [], path_root = [], path_tail = []\<rparr>
      else
        (case nt_splitroot (bs s) of
           (drv, root, rel) \<Rightarrow>
             (let drv_parts = split_on (CHR 0x5C) drv;
                  root1 =
                    (if root = [] \<and> prefix [CHR 0x5C] drv \<and> \<not> suffix [CHR 0x5C] drv then
                       (if length drv_parts = 4 \<and>
                           drv_parts ! 2 \<notin> set [[], ''?'', ''.'', ''?.''] then [CHR 0x5C]
                        else if length drv_parts = 6 then [CHR 0x5C]
                        else root)
                     else root)
              in \<lparr>path_drive = drv, path_root = root1,
                  path_tail = filter (\<lambda>x. x \<noteq> [] \<and> x \<noteq> ''.'') (split_on (CHR 0x5C) rel)\<rparr>)))"

text \<open>\<open>str(path)\<close>\<close>

definition nt_str :: "pure_path \<Rightarrow> string" where
  "nt_str p =
     (let body =
        (if path_drive p \<noteq> [] \<or> path_root p \<noteq> [] then
           path_drive p @ path_root p @ join_with (CHR 0x5C) (path_tail p)
         else
           (case path_tail p of
              [] \<Rightarrow> []
            | t # ts \<Rightarrow>
                if fst (nt_splitroot t) \<noteq> [] then join_with (CHR 0x5C) (''.'' # t # ts)
                else join_with (CHR 0x5C) (t # ts)))
      in if body = [] then ''.'' else body)"

text \<open>Two paths are equal when their strings are equal up to case.\<close>

definition nt_eq :: "pure_path \<Rightarrow> pure_path \<Rightarrow> bool" where
  "nt_eq a b = (lower (nt_str a) = lower (nt_str b))"

text \<open>
  \<open>self.relative_to(other)\<close>: \<open>other\<close> has to be \<open>self\<close> or one of its parents; the
  result holds the remaining components of \<open>self\<close>.
\<close>

definition nt_relative_to :: "pure_path \<Rightarrow> pure_path \<Rightarrow> pure_path option" where
  "nt_relative_to self other =
     (if nt_eq other self \<or>
         list_ex (\<lambda>k. nt_eq other (self\<lparr>path_tail := take k (path_tail self)\<rparr>))
           [0..<length (path_tail self)]
      then Some \<lparr>path_drive = [], path_root = [],
                 path_tail = drop (length (path_tail other)) (path_tail self)\<rparr>
      else None)"

text \<open>\<open>a / b\<close>\<close>

definition nt_joinpath :: "pure_path \<Rightarrow> pure_path \<Rightarrow> pure_path" where
  "nt_joinpath a b =
     (if path_root b \<noteq> [] then
        (if path_drive b = [] \<and> path_drive a \<noteq> [] then b\<lparr>path_drive := path_drive a\<rparr> else b)
      else if path_drive b \<noteq> [] then
        (if lower (path_drive b) = lower (path_drive a)
         then a\<lparr>path_tail := path_tail a @ path_tail b\<rparr>
         else b)
      else a\<lparr>path_tail := path_tail a @ path_tail b\<rparr>)"

text \<open>\<open>path.parent\<close>, \<open>path.name\<close>, \<open>path.suffix\<close> and \<open>path.stem\<close>\<close>

definition nt_parent :: "pure_path \<Rightarrow> pure_path" where
  "nt_parent p = p\<lparr>path_tail := butlast (path_tail p)\<rparr>"

definition nt_name :: "pure_path \<Rightarrow> string" where
  "nt_name p = (case rev (path_tail p) of [] \<Rightarrow> [] | n # _ \<Rightarrow> n)"

definition nt_suffix :: "pure_path \<Rightarrow> string" where
  "nt_suffix p =
     (let n = nt_name p; i = rfind n (CHR ''.'')
      in if 0 < i \<and> i < int (length n) - 1 then drop (nat i) n else [])"

definition nt_stem :: "pure_path \<Rightarrow> string" where
  "nt_stem p =
     (let n = nt_name p; i = rfind n (CHR ''.'')
      in if 0 < i \<and> i < int (length n) - 1 then take (nat i) n else n)"

text \<open>\<open>ntpath.split\<close>, whose parts are \<open>dirname\<close> and \<open>basename\<close>, and \<open>ntpath.splitext\<close>.\<close>

definition is_sep :: "char \<Rightarrow> bool" where
  "is_sep c = (c = CHR 0x5C \<or> c = CHR ''/'')"

definition nt_split :: "string \<Rightarrow> string \<times> string" where
  "nt_split p =
     (case nt_splitroot p of
        (d, r, rest) \<Rightarrow>
          (let head = rev (dropWhile (\<lambda>c. \<not> is_sep c) (rev rest));
               tail = rev (takeWhile (\<lambda>c. \<not> is_sep c) (rev rest))
           in (d @ r @ rev (dropWhile is_sep (rev head)), tail)))"

definition nt_splitext :: "string \<Rightarrow> string \<times> string" where
  "nt_splitext p =
     (let sepIndex = max (rfind p (CHR 0x5C)) (rfind p (CHR ''/''));
          dotIndex = rfind p (CHR ''.'')
      in if sepIndex < dotIndex \<and>
            list_ex (\<lambda>c. c \<noteq> CHR ''.'')
              (take (nat (dotIndex - (sepIndex + 1))) (drop (nat (sepIndex + 1)) p))
         then (take (nat dotIndex) p, drop (nat dotIndex) p)
         else (p, []))"

definition windows :: "pure_path platform" where
  "windows =
     \<lparr>Path = nt_Path, path_str = nt_str, relative_to = nt_relative_to, joinpath = nt_joinpath,
      parent = nt_parent, path_stem = nt_stem, path_suffix = nt_suffix,
      basename = (\<lambda>p. snd (nt_split p)), dirname = (\<lambda>p. fst (nt_split p)),
      splitext = nt_splitext\<rparr>"

subsection \<open>Shell-style name matching\<close>

text \<open>
  \<open>Path.glob\<close> matches every directory entry against the pattern with the rules of
  \<open>fnmatch\<close>: \<open>*\<close> is any run of characters, \<open>?\<close> one character, \<open>[seq]\<close> one
  character of a set with ranges, \<open>[!seq]\<close> one character outside it, and a \<open>[\<close>
  with no closing bracket is literal.
\<close>

datatype glob_token =
    Star
  | AnyChar
  | Lit char
  | CharClass bool "(char \<times> char) list"

text \<open>The members of a bracket expression: \<open>a-b\<close> is a range, anything else a single character.\<close>

fun class_items :: "string \<Rightarrow> (char \<times> char) list" where
  "class_items (a # m # b # cs) =
     (if m = CHR ''-'' then (a, b) # class_items cs else (a, a) # class_items (m # b # cs))"
| "class_items (a # cs) = (a, a) # class_items cs"
| "class_items [] = []"

text \<open>
  The text after an opening bracket is cut at the closing bracket; a \<open>]\<close> in first
  place (after an optional \<open>!\<close>) belongs to the set.  \<open>None\<close>: no closing bracket.
\<close>

definition cut_at_bracket :: "string \<Rightarrow> (string \<times> string) option" where
  "cut_at_bracket s =
     (let body = takeWhile (\<lambda>c. c \<noteq> CHR '']'') s; rest = dropWhile (\<lambda>c. c \<noteq> CHR '']'') s
      in if rest = [] then None else Some (body, tl rest))"

definition class_split :: "string \<Rightarrow> (bool \<times> string \<times> string) option" where
  "class_split s =
     (let neg = (take 1 s = ''!''); s1 = (if neg then drop 1 s else s);
          lead = (if take 1 s1 = '']'' then '']'' else []); s2 = drop (length lead) s1
      in case cut_at_bracket s2 of
           None \<Rightarrow> None
         | Some (body, rest) \<Rightarrow> Some (neg, lead @ body, rest))"

function (sequential) fnmatch_tokens :: "string \<Rightarrow> glob_token list" where
  "fnmatch_tokens [] = []"
| "fnmatch_tokens (c # cs) =
     (if c = CHR ''*'' then Star # fnmatch_tokens cs
      else if c = CHR ''?'' then AnyChar # fnmatch_tokens cs
      else if c = CHR ''['' then
        (case class_split cs of
           None \<Rightarrow> Lit c # fnmatch_tokens cs
         | Some (neg, stuff, rest) \<Rightarrow> CharClass neg (class_items stuff) # fnmatch_tokens rest)
      else Lit c # fnmatch_tokens cs)"
  by pat_completeness auto
termination
proof (relation "measure length")
  show "wf (measure length)" by simp
next
  fix c cs x2 x y xa ya
  assume "class_split cs = Some x2" "(x, y) = x2" "(xa, ya) = y"
  then have split: "class_split cs = Some (x, xa, ya)" by simp
  have cut: "length rest < length s" if a: "cut_at_bracket s = Some (body, rest)"
    for s body rest
  proof -
    let ?d = "dropWhile (\<lambda>c. c \<noteq> CHR '']'') s"
    from a have ne: "?d \<noteq> []" and r: "rest = tl ?d"
      by (auto simp: cut_at_bracket_def Let_def split: if_splits)
    have "length ?d \<le> length s" by (rule length_dropWhile_le)
    moreover from ne have "length (tl ?d) < length ?d" by (cases ?d) auto
    ultimately show ?thesis using r by simp
  qed
  from split have "length ya \<le> length cs"
    by (auto simp: class_split_def Let_def split: option.splits if_splits dest!: cut)
  then show "(ya, c # cs) \<in> measure length" by simp
qed simp_all

definition in_class :: "bool \<Rightarrow> (char \<times> char) list \<Rightarrow> char \<Rightarrow> bool" where
  "in_class neg items c =
     (list_ex (\<lambda>(lo, hi). (of_char lo :: nat) \<le> of_char c \<and> (of_char c :: nat) \<le> of_char hi) items
        \<noteq> neg)"

fun tokens_match :: "glob_token list \<Rightarrow> string \<Rightarrow> bool" where
  "tokens_match [] s = (s = [])"
| "tokens_match (Star # ts) [] = tokens_match ts []"
| "tokens_match (Star # ts) (c # s) = (tokens_match ts (c # s) \<or> tokens_match (Star # ts) s)"
| "tokens_match (AnyChar # ts) [] = False"
| "tokens_match (AnyChar # ts) (c # s) = tokens_match ts s"
| "tokens_match (Lit d # ts) [] = False"
| "tokens_match (Lit d # ts) (c # s) = (d = c \<and> tokens_match ts s)"
| "tokens_match (CharClass neg items # ts) [] = False"
| "tokens_match (CharClass neg items # ts) (c # s) = (in_class neg items c \<and> tokens_match ts s)"

definition fnmatch :: "string \<Rightarrow> string \<Rightarrow> bool" where
  "fnmatch nm pat = tokens_match (fnmatch_tokens pat) nm"

text \<open>
  \<open>folder.glob(pattern)\<close> for a pattern of one component over a directory listing
  (\<open>None\<close> for a folder that cannot be scanned): a pattern that contains \<open>**\<close> raises
  \<open>ValueError\<close>; else the result holds the entries whose names match up to case, as
  paths below the folder.
\<close>

definition listing_glob ::
  "(string \<Rightarrow> string list option) \<Rightarrow> pure_path \<Rightarrow> string \<Rightarrow> exn + pure_path list" where
  "listing_glob listdir folder pat =
     (if sublist ''**'' pat then Inl ValueError
      else
        (case listdir (nt_str folder) of
           None \<Rightarrow> Inr []
         | Some names \<Rightarrow>
             Inr (map (\<lambda>n. nt_joinpath folder
                             \<lparr>path_drive = [], path_root = [], path_tail = [n]\<rparr>)
                    (filter (\<lambda>n. fnmatch (lower n) (lower pat)) names))))"

section \<open>Example data\<close>

text \<open>
  The scenario of the specification: the pair \<open>/A\<close>, \<open>/B\<close> with versioning folder
  \<open>/V\<close>, and a file \<open>doc.txt\<close> present on both sides and once in the versioning
  folder.  The filesystem takes either separator, as Windows does, and resolves a path
  to the current drive; every time stamp is converted to itself, except the one of
  \<open>/B/old.txt\<close>, which is out of range.
\<close>

definition example_pair :: SyncPair where
  "example_pair =
     \<lparr>name = ''job'', left_path = ''/A'', right_path = ''/B'', versioning_folder = Some ''/V'',
      sync_policy = [], include_patterns = [], exclude_patterns = [],
      sync_config_path = ''/cfg/job.ffs_batch''\<rparr>"

text \<open>The name of a file on the current drive \<open>C:\<close>, written with or without the drive.\<close>

definition local_name :: "string \<Rightarrow> string" where
  "local_name p =
     (let q = bs p in if map char_upper (take 2 q) = ''C:'' then drop 2 q else q)"

definition example_files :: "string list" where
  "example_files =
     map bs [''/A'', ''/B'', ''/V'', ''/A/doc.txt'', ''/B/doc.txt'', ''/A/old.txt'', ''/B/old.txt'',
             ''/V/doc.txt 2024-01-01 120000.txt'']"

definition example_listdir :: "string \<Rightarrow> string list option" where
  "example_listdir p =
     (if local_name p = bs ''/V'' then Some [''doc.txt 2024-01-01 120000.txt'', ''notes.txt'']
      else None)"

definition example_fs :: "pure_path filesystem" where
  "example_fs =
     \<lparr>fs_exists = (\<lambda>p. local_name p \<in> set example_files),
      fs_mtime = (\<lambda>p. if local_name p = bs ''/A/doc.txt'' then 200
                       else if local_name p = bs ''/B/doc.txt'' then 300
                       else if local_name p = bs ''/B/old.txt'' then 253402300800
                       else 100),
      fs_size = (\<lambda>p. 10),
      fs_fromtimestamp = (\<lambda>t. if t < 253402300800 then Inr t else Inl ValueError),
      fs_glob = listing_glob example_listdir,
      fs_resolve = (\<lambda>p. ''C:'' @ local_name p)\<rparr>"

text \<open>The same files, the source and the archived copy with equal modification times.\<close>

definition tie_fs :: "pure_path filesystem" where
  "tie_fs =
     example_fs\<lparr>fs_mtime :=
       (\<lambda>p. if local_name p = bs ''/B/doc.txt'' then 300 else 200)\<rparr>"


text \<open>A pair on a network share, and a file there that does not exist.\<close>

definition share_pair :: SyncPair where
  "share_pair =
     example_pair\<lparr>left_path := bs ''//nohost/share'', right_path := bs ''//nohost/backup'',
                  versioning_folder := None\<rparr>"

text \<open>
  A configuration with three \<open>Pair\<close> entries: a complete one, one whose \<open>Left\<close>
  element has no text, and one without a \<open>Left\<close> element.
\<close>

definition example_xml :: xml where
  "example_xml =
     Element ''FreeFileSync'' [] None
       [Element ''Synchronize'' [] None
          [Element ''Changes'' [] None
             [Element ''Left'' [(''Create'', ''right''), (''Update'', ''right'')] None [],
              Element ''Right'' [(''Delete'', ''none'')] None []],
           Element ''VersioningFolder'' [] (Some ''/V'') []],
        Element ''Filter'' [] None
          [Element ''Include'' [] None [Element ''Item'' [] (Some ''*'') []],
           Element ''Exclude'' [] None
             [Element ''Item'' [] (Some ''*.tmp'') [], Element ''Item'' [] None []]],
        Element ''FolderPairs'' [] None
          [Element ''Pair'' [] None
             [Element ''Left'' [] (Some ''/A'') [], Element ''Right'' [] (Some ''/B'') []],
           Element ''Pair'' [] None
             [Element ''Left'' [] None [], Element ''Right'' [] (Some ''/C'') []],
           Element ''Pair'' [] None
             [Element ''Right'' [] (Some ''/D'') []]]]"

definition example_et_parse :: "string \<Rightarrow> exn + xml" where
  "example_et_parse p =
     (if p = ''/cfg/job.ffs_batch'' then Inr example_xml
      else if p = ''/cfg/broken.ffs_batch'' then Inl ParseError
      else Inl OSError)"


text \<open>
  Two moments of one folder.  At first \<open>/A/doc.txt\<close> has the digest \<open>h1\<close>.  Then
  the file is edited and copied: \<open>/A/doc.txt\<close> and \<open>/A/copy.txt\<close> both have the
  digest \<open>h2\<close>.
\<close>

definition env_before :: remarks_env where
  "env_before =
     \<lparr>resolve_posix = (\<lambda>p. p),
      file_digest = (\<lambda>p. if p = ''/A/doc.txt'' then Some ''h1'' else None),
      now = 1, db_available = True\<rparr>"

definition env_after :: remarks_env where
  "env_after =
     \<lparr>resolve_posix = (\<lambda>p. p),
      file_digest = (\<lambda>p. if p = ''/A/doc.txt'' \<or> p = ''/A/copy.txt'' then Some ''h2'' else None),
      now = 2, db_available = True\<rparr>"


section \<open>Notions used in the statements\<close>

text \<open>The items of all pairs in emission order, before sorting.\<close>

definition concat_emitted ::
  "'p platform \<Rightarrow> ('p, 'z) filesystem_scheme \<Rightarrow> string \<Rightarrow> SyncPair list \<Rightarrow>
   FileHistoryItem list" where
  "concat_emitted lib fs fpath sync_pairs =
     concat (map (\<lambda>pair. fst (scan_pair lib fs fpath pair)) sync_pairs)"

text \<open>
  The cache is empty when the module is loaded; only \<open>load_file_history\<close> and
  \<open>clear_file_history_cache\<close> change it.
\<close>

inductive reachable_cache :: "'p platform \<Rightarrow> history_cache \<Rightarrow> bool"
  for lib :: "'p platform" where
  start: "reachable_cache lib Map.empty"
| after_load:
    "reachable_cache lib c \<Longrightarrow>
       reachable_cache lib
         (snd (load_file_history lib (fs :: 'p filesystem) c fpath sync_pairs))"
| after_clear: "reachable_cache lib c \<Longrightarrow> reachable_cache lib (clear_file_history_cache q c)"

definition cache_inv :: "'p platform \<Rightarrow> history_cache \<Rightarrow> bool" where
  "cache_inv lib c =
     (\<forall>p r. c p = Some r \<longrightarrow>
        (\<exists>(fs :: 'p filesystem) pairs. r = resolve_uncached lib fs p pairs))"

text \<open>
  A folder contains a path when \<open>relative_to\<close> succeeds.  The test of
  \<open>load_file_history\<close> for the left side asks more: the queried string has to be the
  string of the left folder joined with the relative path.
\<close>

definition contains_path :: "'p platform \<Rightarrow> string \<Rightarrow> string \<Rightarrow> bool" where
  "contains_path lib folder fpath = (relative_to lib (Path lib fpath) (Path lib folder) \<noteq> None)"


text \<open>A file is readable when it exists and its time stamp can be converted.\<close>

definition readable :: "('p, 'z) filesystem_scheme \<Rightarrow> string \<Rightarrow> bool" where
  "readable fs p = (fs_exists fs p \<and> \<not> isl (fs_fromtimestamp fs (fs_mtime fs p)))"



text \<open>
  The versioning test of \<open>get_file_history\<close> is a test on strings.  A file is inside
  the versioning folder of a pair when it passes that test and is also relative to the
  folder.
\<close>

definition versioning_base :: "('p, 'z) filesystem_scheme \<Rightarrow> SyncPair \<Rightarrow> string" where
  "versioning_base fs pair =
     (case versioning_folder pair of
        None \<Rightarrow> []
      | Some v \<Rightarrow> if v = [] then [] else fs_resolve fs v)"

definition starts_with_versioning :: "('p, 'z) filesystem_scheme \<Rightarrow> string \<Rightarrow> SyncPair \<Rightarrow> bool" where
  "starts_with_versioning fs fpath pair =
     (versioning_base fs pair \<noteq> [] \<and> prefix (versioning_base fs pair) fpath)"

definition inside_versioning ::
  "'p platform \<Rightarrow> ('p, 'z) filesystem_scheme \<Rightarrow> string \<Rightarrow> SyncPair \<Rightarrow> bool" where
  "inside_versioning lib fs fpath pair =
     (starts_with_versioning fs fpath pair \<and>
      contains_path lib (versioning_base fs pair) fpath)"

definition archived_entry ::
  "'p platform \<Rightarrow> ('p, 'z) filesystem_scheme \<Rightarrow> string \<Rightarrow> history_entry" where
  "archived_entry lib fs p =
     \<lparr>he_file_name = basename lib p,
      he_modified_time = (case fs_fromtimestamp fs (fs_mtime fs p) of Inl e \<Rightarrow> 0 | Inr t \<Rightarrow> t),
      he_version = HistoryVersion, he_file_path = p, he_folder_path = dirname lib p\<rparr>"

text \<open>Notions used in the statements about the registry.\<close>

definition success_of :: "'p platform \<Rightarrow> (string \<Rightarrow> exn + xml) \<Rightarrow> string \<Rightarrow> bool" where
  "success_of lib et_parse config_path =
     (create_parser lib config_path \<noteq> None \<and> parse_config lib et_parse config_path \<noteq> None)"

definition covered ::
  "'p platform \<Rightarrow> (string \<Rightarrow> exn + xml) \<Rightarrow> SyncPair list \<Rightarrow> string \<Rightarrow> bool" where
  "covered lib et_parse registered config_path =
     (case create_parser lib config_path of
        None \<Rightarrow> True
      | Some _ \<Rightarrow>
          (case parse_config lib et_parse config_path of
             None \<Rightarrow> True
           | Some parsed \<Rightarrow> \<forall>sp\<in>set parsed. pair_in sp registered))"

definition empty_model :: SyncConfigModel where
  "empty_model = \<lparr>model_sync_config_paths = {}, model_sync_pairs = []\<rparr>"

text \<open>The two paths a \<open>Pair\<close> element yields, if it has both child elements.\<close>

definition pair_elem_paths :: "xml \<Rightarrow> (string \<times> string) list" where
  "pair_elem_paths pair =
     (case find_child ''Left'' pair of
        None \<Rightarrow> []
      | Some l \<Rightarrow>
          (case find_child ''Right'' pair of
             None \<Rightarrow> []
           | Some r \<Rightarrow> [(text_or_empty l, text_or_empty r)]))"

section \<open>Properties of the history cache\<close>

lemma scan_pairs_acc:
  "scan_pairs lib fs fpath pairs (h, m) =
     (h @ concat_emitted lib fs fpath pairs,
      m \<or> list_ex (\<lambda>pair. snd (scan_pair lib fs fpath pair)) pairs)"
  by (induction pairs arbitrary: h m) (auto simp: concat_emitted_def split: prod.splits)

lemma resolve_uncached_eq:
  "resolve_uncached lib fs fpath pairs =
     (sort_reverse modified_time (concat_emitted lib fs fpath pairs),
      list_ex (\<lambda>pair. snd (scan_pair lib fs fpath pair)) pairs)"
  by (simp add: resolve_uncached_def scan_pairs_acc)

lemma sort_reverse_sorted: "sorted_wrt (\<lambda>a b. key b \<le> key a) (sort_reverse key xs)"
proof -
  have "sorted (map key (sort_key key (rev xs)))" by simp
  then have "sorted_wrt (\<lambda>a b. key a \<le> key b) (sort_key key (rev xs))"
    by (simp add: sorted_map)
  then show ?thesis by (simp add: sort_reverse_def sorted_wrt_rev)
qed

lemma sort_reverse_stable:
  "filter (\<lambda>x. key x = k) (sort_reverse key xs) = filter (\<lambda>x. key x = k) xs"
  by (simp add: sort_reverse_def rev_filter [symmetric] sort_key_stable)

lemma length_sort_reverse: "length (sort_reverse key xs) = length xs"
  by (simp add: sort_reverse_def)


lemma reachable_cache_inv: "reachable_cache lib c \<Longrightarrow> cache_inv lib c"
proof (induction rule: reachable_cache.induct)
  case start
  show ?case by (simp add: cache_inv_def)
next
  case (after_load c fs fpath sync_pairs)
  then have inv: "cache_inv lib c" by simp
  show ?case
    unfolding cache_inv_def
  proof (intro allI impI)
    fix p r
    assume a: "snd (load_file_history lib fs c fpath sync_pairs) p = Some r"
    show "\<exists>(fs :: 'a filesystem) pairs. r = resolve_uncached lib fs p pairs"
    proof (cases "is_valid fs fpath \<and> c fpath = None \<and> p = fpath")
      case True
      with a have "r = resolve_uncached lib fs fpath sync_pairs"
        by (simp add: load_file_history_def Let_def)
      with True show ?thesis by (intro exI [of _ fs] exI [of _ sync_pairs]) simp
    next
      case False
      with a have "c p = Some r"
        by (auto simp: load_file_history_def Let_def split: if_splits option.splits)
      with inv show ?thesis unfolding cache_inv_def by (elim allE [of _ p] allE [of _ r]) simp
    qed
  qed
next
  case (after_clear c q)
  then have inv: "cache_inv lib c" by simp
  have keep: "clear_file_history_cache q c p = Some r \<Longrightarrow> c p = Some r" for p r
    by (auto simp: clear_file_history_cache_def split: option.splits if_splits)
  show ?case
    unfolding cache_inv_def
  proof (intro allI impI)
    fix p r
    assume "clear_file_history_cache q c p = Some r"
    then have "c p = Some r" by (rule keep)
    with inv show "\<exists>(fs :: 'a filesystem) pairs. r = resolve_uncached lib fs p pairs"
      unfolding cache_inv_def by (elim allE [of _ p] allE [of _ r]) simp
  qed
qed

text \<open>
  Claim C10, as the code has it.  When the validity probe of the path manager fails for
  the queried path, \<open>load_file_history\<close> returns the empty list and \<open>False\<close> at
  once; the cache is neither read nor written, whatever the sync pairs are.  The probe
  looks at the disk for a local path only: it fails exactly when the path has the local
  handler and does not exist.
\<close>

theorem invalid_path_returns_empty:
  "(\<not> is_valid fs fpath \<longrightarrow>
      load_file_history lib fs cache fpath sync_pairs = (([], False), cache)) \<and>
   is_valid fs fpath = (get_handler fpath \<noteq> LocalPathHandler \<or> fs_exists fs fpath)"
  by (simp add: load_file_history_def is_valid_def split: handler.splits)

theorem invalid_path_returns_empty_witness:
  "\<not> fs_exists example_fs (bs ''/A/gone.txt'') \<and>
   get_handler (bs ''/A/gone.txt'') = LocalPathHandler \<and>
   contains_path windows (left_path example_pair) (bs ''/A/gone.txt'') \<and>
   load_file_history windows example_fs [bs ''/A/gone.txt'' \<mapsto> ([], True)]
     (bs ''/A/gone.txt'') [example_pair]
     = (([], False), [bs ''/A/gone.txt'' \<mapsto> ([], True)])"
proof -
  have e: "\<not> fs_exists example_fs (bs ''/A/gone.txt'')" by code_simp
  have l: "get_handler (bs ''/A/gone.txt'') = LocalPathHandler" by code_simp
  have c: "contains_path windows (left_path example_pair) (bs ''/A/gone.txt'')" by code_simp
  note t = invalid_path_returns_empty [of example_fs "bs ''/A/gone.txt''"]
  from e l t [THEN conjunct2] have v: "\<not> is_valid example_fs (bs ''/A/gone.txt'')" by simp
  from t [THEN conjunct1, rule_format, OF v] e l c show ?thesis by simp
qed

text \<open>
  The claim as stated fails for a path that does not exist on a network share: the probe
  passes without looking at the disk, the pairs are scanned, \<open>has_matched\<close> is set
  since the left folder of the pair contains the path, and the result is stored in the
  cache.
\<close>

theorem missing_share_path_counterexample:
  "\<not> fs_exists example_fs (bs ''//nohost/share/f.txt'') \<and>
   fst (load_file_history windows example_fs Map.empty (bs ''//nohost/share/f.txt'') [share_pair])
     = ([], True) \<and>
   snd (load_file_history windows example_fs Map.empty (bs ''//nohost/share/f.txt'') [share_pair])
     (bs ''//nohost/share/f.txt'') = Some ([], True)"
  by code_simp

text \<open>
  Claim C9.  The cache memoizes by the path string.  A second call for the same path
  returns the first result and leaves the cache as it is; for a path that passes the
  validity probe the first call stores its result under the path, and from then on the
  answer is the stored one whatever the filesystem and the sync pairs have become, so no
  pair is scanned.  Invalidating the path removes that entry and no other, and the next
  call computes and stores a fresh result.  Invalidating without a path empties the cache.
\<close>

theorem cache_memoizes:
  fixes lib :: "'p platform" and fs :: "('p, 'z) filesystem_scheme" and cache :: history_cache
    and fpath :: string and sync_pairs :: "SyncPair list"
  defines "r \<equiv> fst (load_file_history lib fs cache fpath sync_pairs)"
      and "cache1 \<equiv> snd (load_file_history lib fs cache fpath sync_pairs)"
  shows "load_file_history lib fs cache1 fpath sync_pairs = (r, cache1) \<and>
         (is_valid fs fpath \<longrightarrow>
            cache1 fpath = Some r \<and>
            (\<forall>(fs' :: ('p, 'z) filesystem_scheme) pairs'. is_valid fs' fpath \<longrightarrow>
               load_file_history lib fs' cache1 fpath pairs' = (r, cache1))) \<and>
         clear_file_history_cache (Some fpath) cache1 = cache1(fpath := None) \<and>
         (\<forall>(fs' :: ('p, 'z) filesystem_scheme) pairs'. is_valid fs' fpath \<longrightarrow>
            load_file_history lib fs' (clear_file_history_cache (Some fpath) cache1) fpath pairs'
              = (resolve_uncached lib fs' fpath pairs',
                 cache1(fpath \<mapsto> resolve_uncached lib fs' fpath pairs'))) \<and>
         clear_file_history_cache None cache1 = Map.empty"
proof (intro conjI)
  show "load_file_history lib fs cache1 fpath sync_pairs = (r, cache1)"
    unfolding r_def cache1_def
    by (auto simp: load_file_history_def Let_def split: option.splits)
  show "is_valid fs fpath \<longrightarrow>
          cache1 fpath = Some r \<and>
          (\<forall>(fs' :: ('p, 'z) filesystem_scheme) pairs'. is_valid fs' fpath \<longrightarrow>
             load_file_history lib fs' cache1 fpath pairs' = (r, cache1))"
  proof
    assume v: "is_valid fs fpath"
    then have c: "cache1 fpath = Some r"
      unfolding r_def cache1_def
      by (auto simp: load_file_history_def Let_def split: option.splits)
    then have "\<forall>(fs' :: ('p, 'z) filesystem_scheme) pairs'. is_valid fs' fpath \<longrightarrow>
                 load_file_history lib fs' cache1 fpath pairs' = (r, cache1)"
      by (simp add: load_file_history_def)
    with c show "cache1 fpath = Some r \<and>
          (\<forall>(fs' :: ('p, 'z) filesystem_scheme) pairs'. is_valid fs' fpath \<longrightarrow>
             load_file_history lib fs' cache1 fpath pairs' = (r, cache1))"
      by simp
  qed
  show clr: "clear_file_history_cache (Some fpath) cache1 = cache1(fpath := None)"
    by (auto simp: clear_file_history_cache_def fun_eq_iff)
  show "\<forall>(fs' :: ('p, 'z) filesystem_scheme) pairs'. is_valid fs' fpath \<longrightarrow>
          load_file_history lib fs' (clear_file_history_cache (Some fpath) cache1) fpath pairs'
            = (resolve_uncached lib fs' fpath pairs',
               cache1(fpath \<mapsto> resolve_uncached lib fs' fpath pairs'))"
    by (simp add: clr load_file_history_def Let_def)
  show "clear_file_history_cache None cache1 = Map.empty"
    by (simp add: clear_file_history_cache_def)
qed

theorem cache_memoizes_witness:
  "is_valid example_fs (bs ''/A/doc.txt'') \<and> is_valid tie_fs (bs ''/A/doc.txt'') \<and>
   snd (load_file_history windows example_fs Map.empty (bs ''/A/doc.txt'') [example_pair])
     (bs ''/A/doc.txt'')
     = Some (fst (load_file_history windows example_fs Map.empty (bs ''/A/doc.txt'')
         [example_pair])) \<and>
   load_file_history windows tie_fs
     (snd (load_file_history windows example_fs Map.empty (bs ''/A/doc.txt'') [example_pair]))
     (bs ''/A/doc.txt'') []
     = load_file_history windows example_fs Map.empty (bs ''/A/doc.txt'') [example_pair]"
proof -
  have v: "is_valid example_fs (bs ''/A/doc.txt'')" by code_simp
  have v2: "is_valid tie_fs (bs ''/A/doc.txt'')" by code_simp
  note m = cache_memoizes [of windows example_fs Map.empty "bs ''/A/doc.txt''" "[example_pair]",
      THEN conjunct2, THEN conjunct1, rule_format, OF v]
  note stored = m [THEN conjunct1]
  note again = m [THEN conjunct2, rule_format, OF v2, of "[]"]
  from v v2 stored again show ?thesis by simp
qed

text \<open>
  Claim C4.  In every state the cache can reach, the list \<open>load_file_history\<close>
  returns is in descending order of the modification times of its items.  When the path
  passes the validity probe the list is a stable rearrangement of the items one scan of
  sync pairs emitted: it has as many items, and for every modification time the items
  with that time are those of the emission, in the order of the emission.  That scan is
  the one of this call when the cache has no entry for the path, and else the one that
  filled the entry.  When the probe fails the list is empty.
\<close>

theorem result_sorted_stable:
  fixes lib :: "'p platform" and fs :: "'p filesystem" and cache :: history_cache
    and fpath :: string and sync_pairs :: "SyncPair list"
  assumes "reachable_cache lib cache"
  defines "items \<equiv> fst (fst (load_file_history lib fs cache fpath sync_pairs))"
  shows "sorted_wrt (\<lambda>a b. modified_time b \<le> modified_time a) items \<and>
         (if is_valid fs fpath then
            (\<exists>(fs' :: 'p filesystem) pairs'.
               (cache fpath = None \<longrightarrow> fs' = fs \<and> pairs' = sync_pairs) \<and>
               length items = length (concat_emitted lib fs' fpath pairs') \<and>
               (\<forall>t. filter (\<lambda>i. modified_time i = t) items =
                    filter (\<lambda>i. modified_time i = t) (concat_emitted lib fs' fpath pairs')))
          else items = [])"
proof (cases "is_valid fs fpath")
  case False
  then have "items = []" by (simp add: items_def load_file_history_def)
  with False show ?thesis by simp
next
  case valid: True
  have "\<exists>(fs' :: 'p filesystem) pairs'.
          (cache fpath = None \<longrightarrow> fs' = fs \<and> pairs' = sync_pairs) \<and>
          items = sort_reverse modified_time (concat_emitted lib fs' fpath pairs')"
  proof (cases "cache fpath")
    case None
    with valid
    have "items = sort_reverse modified_time (concat_emitted lib fs fpath sync_pairs)"
      by (simp add: items_def load_file_history_def Let_def resolve_uncached_eq)
    then show ?thesis
      by (intro exI [of _ fs] exI [of _ sync_pairs]) simp
  next
    case (Some r)
    from assms(1) have "cache_inv lib cache" by (rule reachable_cache_inv)
    then have "\<exists>(fs' :: 'p filesystem) pairs'. r = resolve_uncached lib fs' fpath pairs'"
      using Some unfolding cache_inv_def by (elim allE [of _ fpath] allE [of _ r]) simp
    then obtain fs' :: "'p filesystem" and pairs'
      where "r = resolve_uncached lib fs' fpath pairs'"
      by (elim exE)
    with Some valid
    have "items = sort_reverse modified_time (concat_emitted lib fs' fpath pairs')"
      by (simp add: items_def load_file_history_def resolve_uncached_eq)
    with Some show ?thesis
      by (intro exI [of _ fs'] exI [of _ pairs']) simp
  qed
  then obtain fs' :: "'p filesystem" and pairs' where
    fresh: "cache fpath = None \<longrightarrow> fs' = fs \<and> pairs' = sync_pairs" and
    eq: "items = sort_reverse modified_time (concat_emitted lib fs' fpath pairs')"
    by (elim exE conjE)
  from eq have srt: "sorted_wrt (\<lambda>a b. modified_time b \<le> modified_time a) items"
    by (simp add: sort_reverse_sorted)
  from eq have len: "length items = length (concat_emitted lib fs' fpath pairs')"
    by (simp add: length_sort_reverse)
  from eq have stb: "\<forall>t. filter (\<lambda>i. modified_time i = t) items =
      filter (\<lambda>i. modified_time i = t) (concat_emitted lib fs' fpath pairs')"
    by (simp add: sort_reverse_stable)
  have "\<exists>(fs' :: 'p filesystem) pairs'.
      (cache fpath = None \<longrightarrow> fs' = fs \<and> pairs' = sync_pairs) \<and>
      length items = length (concat_emitted lib fs' fpath pairs') \<and>
      (\<forall>t. filter (\<lambda>i. modified_time i = t) items =
           filter (\<lambda>i. modified_time i = t) (concat_emitted lib fs' fpath pairs'))"
    by (intro exI [of _ fs'] exI [of _ pairs'] conjI) (rule fresh, rule len, rule stb)
  with srt valid show ?thesis by simp
qed

theorem result_sorted_stable_witness:
  "reachable_cache windows Map.empty \<and>
   map version (concat_emitted windows tie_fs (bs ''/A/doc.txt'') [example_pair])
     = [SourceFile, SyncedFile, HistoryVersion] \<and>
   map modified_time (concat_emitted windows tie_fs (bs ''/A/doc.txt'') [example_pair])
     = [200, 300, 200] \<and>
   map version
     (fst (fst (load_file_history windows tie_fs Map.empty (bs ''/A/doc.txt'') [example_pair])))
     = [SyncedFile, SourceFile, HistoryVersion] \<and>
   map modified_time
     (fst (fst (load_file_history windows tie_fs Map.empty (bs ''/A/doc.txt'') [example_pair])))
     = [300, 200, 200] \<and>
   sorted_wrt (\<lambda>a b. modified_time b \<le> modified_time a)
     (fst (fst (load_file_history windows tie_fs Map.empty (bs ''/A/doc.txt'') [example_pair])))"
proof -
  have e: "map version (concat_emitted windows tie_fs (bs ''/A/doc.txt'') [example_pair])
     = [SourceFile, SyncedFile, HistoryVersion]" by code_simp
  have f: "map modified_time (concat_emitted windows tie_fs (bs ''/A/doc.txt'') [example_pair])
     = [200, 300, 200]" by code_simp
  have g: "map version
     (fst (fst (load_file_history windows tie_fs Map.empty (bs ''/A/doc.txt'') [example_pair])))
     = [SyncedFile, SourceFile, HistoryVersion]" by code_simp
  have h: "map modified_time
     (fst (fst (load_file_history windows tie_fs Map.empty (bs ''/A/doc.txt'') [example_pair])))
     = [300, 200, 200]" by code_simp
  from result_sorted_stable [of windows Map.empty tie_fs "bs ''/A/doc.txt''" "[example_pair]",
      OF reachable_cache.start, THEN conjunct1]
    reachable_cache.start [of windows] e f g h
  show ?thesis by simp
qed

section \<open>Properties of the resolution\<close>







lemma scan_pair_unrelated:
  "\<not> contains_path lib (left_path pair) fpath \<Longrightarrow> scan_pair lib fs fpath pair = ([], False)"
  by (simp add: scan_pair_def contains_path_def)
















section \<open>Files of the versioning folder\<close>

lemma create_history_item_readable:
  "readable fs p \<Longrightarrow> create_history_item lib fs p HistoryVersion = Inr (archived_entry lib fs p)"
  by (auto simp: create_history_item_def modified_def getmtime_def archived_entry_def
      readable_def split: sum.splits)

lemma create_history_item_unreadable:
  "\<not> readable fs p \<Longrightarrow> \<exists>e. create_history_item lib fs p v = Inl e"
  by (auto simp: create_history_item_def modified_def getmtime_def readable_def
      split: sum.splits)

lemma history_of_pair_versioning:
  "readable fs fpath \<Longrightarrow> starts_with_versioning fs fpath pair \<Longrightarrow>
     history_of_pair lib fs fpath pair = Inr [archived_entry lib fs fpath]"
  by (simp add: history_of_pair_def starts_with_versioning_def versioning_base_def Let_def
      create_history_item_readable)

lemma history_of_pair_raises:
  assumes "\<not> readable fs fpath" and "starts_with_versioning fs fpath pair"
  shows "\<exists>e. history_of_pair lib fs fpath pair = Inl e"
proof -
  from create_history_item_unreadable [OF assms(1), of lib HistoryVersion]
  obtain e where "create_history_item lib fs fpath HistoryVersion = Inl e" by (elim exE)
  with assms(2) have "history_of_pair lib fs fpath pair = Inl e"
    by (simp add: history_of_pair_def starts_with_versioning_def versioning_base_def Let_def)
  then show ?thesis by (rule exI)
qed

lemma history_loop_append:
  "history_loop lib fs fpath (xs @ ys) =
     (case history_loop lib fs fpath xs of
        Inl e \<Rightarrow> Inl e
      | Inr a \<Rightarrow>
          (case history_loop lib fs fpath ys of
             Inl e \<Rightarrow> Inl e
           | Inr b \<Rightarrow> Inr (a @ b)))"
  by (induction xs) (auto split: sum.splits)

text \<open>
  Claim C2, as the code has it.  The classification by versioning folder lives in
  \<open>FFSConfigParser.get_file_history\<close>.  For a readable file whose resolved path is
  inside the resolved versioning folder of a pair, that pair contributes exactly one
  item, labelled as history version, for the file itself, and the left and right folders
  of that pair are not looked at: alone the pair yields that one item, and in any list
  it adds that one item between what the pairs before and after it yield.  When the file
  is not readable the call raises.  \<open>load_file_history\<close> has no such
  classification: a file that no pair's left folder contains resolves to no item and
  \<open>has_matched = False\<close>, also when it lies in a versioning folder.
\<close>

theorem versioning_file_history:
  fixes lib :: "'p platform" and fs :: "('p, 'z) filesystem_scheme" and fpath :: string
    and sync_pairs :: "SyncPair list" and pair :: SyncPair and cache :: history_cache
  shows
    "(readable fs (fs_resolve fs fpath) \<and> inside_versioning lib fs (fs_resolve fs fpath) pair
      \<longrightarrow>
        get_file_history lib fs [pair] fpath = Inr [archived_entry lib fs (fs_resolve fs fpath)] \<and>
        (\<forall>before after a b.
           get_file_history lib fs before fpath = Inr a \<and>
           get_file_history lib fs after fpath = Inr b \<longrightarrow>
             get_file_history lib fs (before @ pair # after) fpath
               = Inr (a @ archived_entry lib fs (fs_resolve fs fpath) # b))) \<and>
     (\<not> readable fs (fs_resolve fs fpath) \<and>
      inside_versioning lib fs (fs_resolve fs fpath) pair
      \<longrightarrow> isl (get_file_history lib fs [pair] fpath)) \<and>
     (is_valid fs fpath \<and> cache fpath = None \<and>
      (\<forall>p\<in>set sync_pairs. \<not> contains_path lib (left_path p) fpath) \<longrightarrow>
        fst (load_file_history lib fs cache fpath sync_pairs) = ([], False))"
proof (intro conjI impI allI)
  assume a: "readable fs (fs_resolve fs fpath) \<and>
    inside_versioning lib fs (fs_resolve fs fpath) pair"
  then have h: "history_of_pair lib fs (fs_resolve fs fpath) pair =
      Inr [archived_entry lib fs (fs_resolve fs fpath)]"
    by (simp add: inside_versioning_def history_of_pair_versioning)
  then show "get_file_history lib fs [pair] fpath =
      Inr [archived_entry lib fs (fs_resolve fs fpath)]"
    by (simp add: get_file_history_def)
  fix before after a b
  assume "get_file_history lib fs before fpath = Inr a \<and>
          get_file_history lib fs after fpath = Inr b"
  with h show "get_file_history lib fs (before @ pair # after) fpath
      = Inr (a @ archived_entry lib fs (fs_resolve fs fpath) # b)"
    by (simp add: get_file_history_def history_loop_append)
next
  assume a: "\<not> readable fs (fs_resolve fs fpath) \<and>
    inside_versioning lib fs (fs_resolve fs fpath) pair"
  then have "\<exists>e. history_of_pair lib fs (fs_resolve fs fpath) pair = Inl e"
    by (simp add: inside_versioning_def history_of_pair_raises)
  then obtain e where "history_of_pair lib fs (fs_resolve fs fpath) pair = Inl e"
    by (elim exE)
  then show "isl (get_file_history lib fs [pair] fpath)"
    by (simp add: get_file_history_def)
next
  assume a: "is_valid fs fpath \<and> cache fpath = None \<and>
      (\<forall>p\<in>set sync_pairs. \<not> contains_path lib (left_path p) fpath)"
  then have "\<forall>p\<in>set sync_pairs. scan_pair lib fs fpath p = ([], False)"
    by (simp add: scan_pair_unrelated)
  then have "concat_emitted lib fs fpath sync_pairs = []"
    and "\<not> list_ex (\<lambda>p. snd (scan_pair lib fs fpath p)) sync_pairs"
    by (simp_all add: concat_emitted_def list_ex_iff)
  with a show "fst (load_file_history lib fs cache fpath sync_pairs) = ([], False)"
    by (simp add: load_file_history_def Let_def resolve_uncached_eq sort_reverse_def)
qed

theorem versioning_file_history_witness:
  "readable example_fs (fs_resolve example_fs (bs ''/V/doc.txt 2024-01-01 120000.txt'')) \<and>
   inside_versioning windows example_fs
     (fs_resolve example_fs (bs ''/V/doc.txt 2024-01-01 120000.txt'')) example_pair \<and>
   get_file_history windows example_fs [example_pair] (bs ''/V/doc.txt 2024-01-01 120000.txt'')
     = Inr [archived_entry windows example_fs
              (fs_resolve example_fs (bs ''/V/doc.txt 2024-01-01 120000.txt''))] \<and>
   get_file_history windows example_fs [example_pair, example_pair]
       (bs ''/V/doc.txt 2024-01-01 120000.txt'')
     = Inr [archived_entry windows example_fs
              (fs_resolve example_fs (bs ''/V/doc.txt 2024-01-01 120000.txt'')),
            archived_entry windows example_fs
              (fs_resolve example_fs (bs ''/V/doc.txt 2024-01-01 120000.txt''))] \<and>
   \<not> readable example_fs (fs_resolve example_fs (bs ''/V/gone.txt'')) \<and>
   inside_versioning windows example_fs (fs_resolve example_fs (bs ''/V/gone.txt''))
     example_pair \<and>
   isl (get_file_history windows example_fs [example_pair] (bs ''/V/gone.txt'')) \<and>
   is_valid example_fs (bs ''/V/doc.txt 2024-01-01 120000.txt'') \<and>
   \<not> contains_path windows (left_path example_pair) (bs ''/V/doc.txt 2024-01-01 120000.txt'') \<and>
   fst (load_file_history windows example_fs Map.empty (bs ''/V/doc.txt 2024-01-01 120000.txt'')
         [example_pair])
     = ([], False)"
proof -
  let ?v = "bs ''/V/doc.txt 2024-01-01 120000.txt''"
  let ?g = "bs ''/V/gone.txt''"
  have r: "readable example_fs (fs_resolve example_fs ?v)" by code_simp
  have iv: "inside_versioning windows example_fs (fs_resolve example_fs ?v) example_pair"
    by code_simp
  have nr: "\<not> readable example_fs (fs_resolve example_fs ?g)" by code_simp
  have ig: "inside_versioning windows example_fs (fs_resolve example_fs ?g) example_pair"
    by code_simp
  have v: "is_valid example_fs ?v" by code_simp
  have nc: "\<not> contains_path windows (left_path example_pair) ?v" by code_simp
  note t = versioning_file_history [where fs = example_fs and fpath = ?v and lib = windows
      and pair = example_pair and cache = Map.empty and sync_pairs = "[example_pair]"]
  note tg = versioning_file_history [where fs = example_fs and fpath = ?g and lib = windows
      and pair = example_pair and cache = Map.empty and sync_pairs = "[example_pair]"]
  from r iv have a: "readable example_fs (fs_resolve example_fs ?v) \<and>
      inside_versioning windows example_fs (fs_resolve example_fs ?v) example_pair"
    by simp
  note one = t [THEN conjunct1, rule_format, OF a, THEN conjunct1]
  note more = t [THEN conjunct1, rule_format, OF a, THEN conjunct2, rule_format,
      where before = "[]" and after = "[example_pair]" and a = "[]"
        and b = "[archived_entry windows example_fs (fs_resolve example_fs ?v)]"]
  have two: "get_file_history windows example_fs [example_pair, example_pair] ?v
     = Inr [archived_entry windows example_fs (fs_resolve example_fs ?v),
            archived_entry windows example_fs (fs_resolve example_fs ?v)]"
    using more one by (simp add: get_file_history_def)
  from nr ig have b: "\<not> readable example_fs (fs_resolve example_fs ?g) \<and>
      inside_versioning windows example_fs (fs_resolve example_fs ?g) example_pair"
    by simp
  note raises = tg [THEN conjunct2, THEN conjunct1, rule_format, OF b]
  from v nc have c: "is_valid example_fs ?v \<and> Map.empty ?v = None \<and>
      (\<forall>p\<in>set [example_pair]. \<not> contains_path windows (left_path p) ?v)"
    by simp
  note unresolved = t [THEN conjunct2, THEN conjunct2, rule_format, OF c]
  from one two raises unresolved r iv nr ig v nc show ?thesis by simp
qed

text \<open>
  The claim as stated fails for \<open>load_file_history\<close>: the archived copy of the
  scenario lies in the versioning folder of the pair and its name matches the pattern,
  and the result has no item for it.
\<close>

theorem versioning_file_unresolved_counterexample:
  "contains_path windows ''/V'' (bs ''/V/doc.txt 2024-01-01 120000.txt'') \<and>
   versioning_folder example_pair = Some ''/V'' \<and>
   fnmatch (basename windows (bs ''/V/doc.txt 2024-01-01 120000.txt''))
     (versioning_pattern windows ''doc.txt'') \<and>
   fs_exists example_fs (bs ''/V/doc.txt 2024-01-01 120000.txt'') \<and>
   fst (load_file_history windows example_fs Map.empty (bs ''/V/doc.txt 2024-01-01 120000.txt'')
         [example_pair])
     = ([], False)"
  by code_simp

section \<open>Properties of configuration parsing\<close>

lemma read_pair_paths:
  "map (\<lambda>sp. (left_path sp, right_path sp)) (read_pair cp nm v pol inc exc pair) =
     pair_elem_paths pair"
  by (simp add: read_pair_def pair_elem_paths_def split: option.splits)

lemma read_pair_config_path:
  "sp \<in> set (read_pair cp nm v pol inc exc pair) \<Longrightarrow> sync_config_path sp = cp"
  by (auto simp: read_pair_def split: option.splits)

text \<open>
  Claim C5, as the code has it.  When the file cannot be read or is not well-formed,
  \<open>parse_config\<close> returns \<open>None\<close>.  Otherwise it returns a list, and no exception
  leaves it: the list has one pair for every \<open>Pair\<close> entry that has both a \<open>Left\<close>
  and a \<open>Right\<close> child element, in document order, and skips the entries that lack one
  of the two elements.  The path of an element without text is the empty string; such an
  entry is not skipped.  Every pair carries the path of the configuration file.
\<close>

theorem parse_config_pairs_and_failure:
  "(et_parse config_path = Inl e \<longrightarrow> parse_config lib et_parse config_path = None) \<and>
   (et_parse config_path = Inr root \<longrightarrow>
      (\<exists>parsed. parse_config lib et_parse config_path = Some parsed \<and>
         map (\<lambda>sp. (left_path sp, right_path sp)) parsed =
           concat (map pair_elem_paths (findall_pair_elems root)) \<and>
         (\<forall>sp\<in>set parsed. sync_config_path sp = config_path)))"
proof (intro conjI impI)
  assume "et_parse config_path = Inl e"
  then show "parse_config lib et_parse config_path = None" by (simp add: parse_config_def)
next
  assume r: "et_parse config_path = Inr root"
  define parsed where "parsed = (case parse_config lib et_parse config_path of Some x \<Rightarrow> x | None \<Rightarrow> [])"
  from r have p: "parse_config lib et_parse config_path = Some parsed"
    by (simp add: parse_config_def parsed_def Let_def)
  from r have paths: "map (\<lambda>sp. (left_path sp, right_path sp)) parsed =
      concat (map pair_elem_paths (findall_pair_elems root))"
    by (simp add: parse_config_def parsed_def Let_def map_concat comp_def read_pair_paths)
  from r have own: "\<forall>sp\<in>set parsed. sync_config_path sp = config_path"
    by (auto simp: parse_config_def parsed_def Let_def dest: read_pair_config_path)
  from p paths own
  show "\<exists>parsed. parse_config lib et_parse config_path = Some parsed \<and>
         map (\<lambda>sp. (left_path sp, right_path sp)) parsed =
           concat (map pair_elem_paths (findall_pair_elems root)) \<and>
         (\<forall>sp\<in>set parsed. sync_config_path sp = config_path)"
    by (intro exI [of _ parsed] conjI)
qed

theorem parse_config_pairs_and_failure_witness:
  "example_et_parse ''/cfg/broken.ffs_batch'' = Inl ParseError \<and>
   parse_config windows example_et_parse ''/cfg/broken.ffs_batch'' = None \<and>
   example_et_parse ''/cfg/job.ffs_batch'' = Inr example_xml \<and>
   map_option (map left_path) (parse_config windows example_et_parse ''/cfg/job.ffs_batch'')
     = Some [''/A'', []] \<and>
   map_option length (parse_config windows example_et_parse ''/cfg/job.ffs_batch'') = Some 2 \<and>
   length (findall_pair_elems example_xml) = 3"
proof -
  have a: "example_et_parse ''/cfg/broken.ffs_batch'' = Inl ParseError"
    by (simp add: example_et_parse_def)
  have b: "example_et_parse ''/cfg/job.ffs_batch'' = Inr example_xml"
    by (simp add: example_et_parse_def)
  have c: "map_option (map left_path) (parse_config windows example_et_parse ''/cfg/job.ffs_batch'')
     = Some [''/A'', []]" by code_simp
  have d: "length (findall_pair_elems example_xml) = 3" by code_simp
  have e: "map_option length (parse_config windows example_et_parse ''/cfg/job.ffs_batch'') = Some 2"
    by code_simp
  from parse_config_pairs_and_failure
      [of example_et_parse "''/cfg/broken.ffs_batch''" ParseError windows example_xml,
       THEN conjunct1, rule_format, OF a] a b c d e
  show ?thesis by simp
qed

text \<open>
  The claim as stated fails for an entry whose \<open>Left\<close> element is present without
  text: the second \<open>Pair\<close> of the example is kept, with an empty left path.
\<close>

theorem pair_without_left_text_counterexample:
  "map (map_option elem_text \<circ> find_child ''Left'') (findall_pair_elems example_xml)
     = [Some (Some ''/A''), Some None, None] \<and>
   map_option (map left_path) (parse_config windows example_et_parse ''/cfg/job.ffs_batch'')
     = Some [''/A'', []] \<and>
   map_option (map right_path) (parse_config windows example_et_parse ''/cfg/job.ffs_batch'')
     = Some [''/B'', ''/C'']"
  by code_simp

section \<open>Properties of the registry\<close>

lemma pair_in_append: "pair_in sp registered \<Longrightarrow> pair_in sp (registered @ extra)"
  by (auto simp: pair_in_def list_ex_iff)

lemma append_new_skip:
  "\<forall>sp\<in>set sps. pair_in sp registered \<Longrightarrow> append_new registered sps = registered"
  by (induction sps arbitrary: registered) simp_all

lemma append_new_extends: "\<exists>extra. append_new registered sps = registered @ extra"
proof (induction sps arbitrary: registered)
  case Nil
  show ?case by simp
next
  case (Cons sp sps)
  show ?case
  proof (cases "pair_in sp registered")
    case True
    with Cons.IH [of registered] show ?thesis by simp
  next
    case False
    from Cons.IH [of "registered @ [sp]"] obtain extra where
      "append_new (registered @ [sp]) sps = (registered @ [sp]) @ extra" by (elim exE)
    with False have "append_new registered (sp # sps) = registered @ (sp # extra)" by simp
    then show ?thesis by (rule exI)
  qed
qed

lemma pair_in_self: "pair_in sp (registered @ [sp])"
  by (simp add: pair_in_def pair_eq_def)

lemma append_new_covers: "\<forall>sp\<in>set sps. pair_in sp (append_new registered sps)"
proof (induction sps arbitrary: registered)
  case Nil
  show ?case by simp
next
  case (Cons sp sps)
  let ?r = "if pair_in sp registered then registered else registered @ [sp]"
  have here: "pair_in sp ?r" by (simp add: pair_in_self)
  from append_new_extends [of ?r sps] obtain extra where
    m: "append_new ?r sps = ?r @ extra" by (elim exE)
  from here have "pair_in sp (?r @ extra)" by (rule pair_in_append)
  with m have "pair_in sp (append_new ?r sps)" by simp
  moreover from Cons.IH [of ?r] have "\<forall>x\<in>set sps. pair_in x (append_new ?r sps)" .
  ultimately show ?case by simp
qed

lemma add_config_success: "snd (add_config lib et_parse registered p) = success_of lib et_parse p"
  by (simp add: add_config_def success_of_def split: option.splits parser.splits)

lemma add_config_extends: "\<exists>extra. fst (add_config lib et_parse registered p) = registered @ extra"
proof (cases "create_parser lib p")
  case None
  then show ?thesis by (simp add: add_config_def)
next
  case (Some k)
  show ?thesis
  proof (cases "parse_config lib et_parse p")
    case None
    with Some show ?thesis by (simp add: add_config_def split: parser.splits)
  next
    case (Some parsed)
    with \<open>create_parser lib p = Some k\<close> append_new_extends [of registered parsed]
    show ?thesis by (simp add: add_config_def split: parser.splits)
  qed
qed

lemma add_config_covers: "covered lib et_parse (fst (add_config lib et_parse registered p)) p"
  using append_new_covers
  by (simp add: covered_def add_config_def split: option.splits parser.splits)

lemma add_config_covered:
  "covered lib et_parse registered p \<Longrightarrow> fst (add_config lib et_parse registered p) = registered"
  by (simp add: covered_def add_config_def append_new_skip split: option.splits parser.splits)

lemma covered_append:
  "covered lib et_parse registered p \<Longrightarrow> covered lib et_parse (registered @ extra) p"
  by (auto simp: covered_def pair_in_append split: option.splits)

lemma add_config_loop_fst:
  "fst (add_config_loop lib et_parse registered (p # ps)) =
     fst (add_config_loop lib et_parse (fst (add_config lib et_parse registered p)) ps)"
  by (simp add: split_beta)

lemma add_config_loop_snd:
  "snd (add_config_loop lib et_parse registered (p # ps)) =
     snd (add_config lib et_parse registered p) #
     snd (add_config_loop lib et_parse (fst (add_config lib et_parse registered p)) ps)"
  by (simp add: split_beta)

lemma add_config_loop_success:
  "snd (add_config_loop lib et_parse registered ps) = map (success_of lib et_parse) ps"
proof (induction ps arbitrary: registered)
  case Nil
  show ?case by simp
next
  case (Cons p ps)
  from Cons.IH [of "fst (add_config lib et_parse registered p)"]
    add_config_success [of lib et_parse registered p]
  show ?case by (simp only: add_config_loop_snd) simp
qed

lemma add_config_loop_extends:
  "\<exists>extra. fst (add_config_loop lib et_parse registered ps) = registered @ extra"
proof (induction ps arbitrary: registered)
  case Nil
  show ?case by simp
next
  case (Cons p ps)
  from add_config_extends [of lib et_parse registered p] obtain m1 where
    a: "fst (add_config lib et_parse registered p) = registered @ m1" by (elim exE)
  from Cons.IH [of "registered @ m1"] obtain m2 where
    b: "fst (add_config_loop lib et_parse (registered @ m1) ps) = (registered @ m1) @ m2"
    by (elim exE)
  from a b have "fst (add_config_loop lib et_parse registered (p # ps)) = registered @ (m1 @ m2)"
    by (simp only: add_config_loop_fst) simp
  then show ?case by (rule exI)
qed

lemma add_config_loop_covers:
  "\<forall>p\<in>set ps. covered lib et_parse (fst (add_config_loop lib et_parse registered ps)) p"
proof (induction ps arbitrary: registered)
  case Nil
  show ?case by simp
next
  case (Cons p ps)
  let ?r1 = "fst (add_config lib et_parse registered p)"
  have step: "fst (add_config_loop lib et_parse registered (p # ps)) =
      fst (add_config_loop lib et_parse ?r1 ps)"
    by (rule add_config_loop_fst)
  from add_config_loop_extends [of lib et_parse ?r1 ps] obtain extra where
    m: "fst (add_config_loop lib et_parse ?r1 ps) = ?r1 @ extra" by (elim exE)
  have "covered lib et_parse ?r1 p" by (rule add_config_covers)
  then have "covered lib et_parse (?r1 @ extra) p" by (rule covered_append)
  with m have "covered lib et_parse (fst (add_config_loop lib et_parse ?r1 ps)) p" by simp
  moreover from Cons.IH [of ?r1]
  have "\<forall>q\<in>set ps. covered lib et_parse (fst (add_config_loop lib et_parse ?r1 ps)) q" .
  ultimately show ?case by (simp only: step) simp
qed

lemma add_config_loop_covered:
  "\<forall>p\<in>set ps. covered lib et_parse registered p \<Longrightarrow>
     fst (add_config_loop lib et_parse registered ps) = registered"
proof (induction ps)
  case Nil
  show ?case by simp
next
  case (Cons p ps)
  then have "fst (add_config lib et_parse registered p) = registered"
    by (simp add: add_config_covered)
  moreover from Cons have "fst (add_config_loop lib et_parse registered ps) = registered" by simp
  ultimately show ?case by (simp only: add_config_loop_fst)
qed

lemma add_config_loop_twice:
  "add_config_loop lib et_parse (fst (add_config_loop lib et_parse registered ps)) ps =
     add_config_loop lib et_parse registered ps"
proof -
  let ?r = "fst (add_config_loop lib et_parse registered ps)"
  have "fst (add_config_loop lib et_parse ?r ps) = ?r"
    by (rule add_config_loop_covered) (rule add_config_loop_covers)
  moreover have "snd (add_config_loop lib et_parse ?r ps) = snd (add_config_loop lib et_parse registered ps)"
    by (simp add: add_config_loop_success)
  ultimately show ?thesis by (simp add: prod_eq_iff)
qed

lemma append_new_distinct:
  "distinct (map sync_config_path registered) \<Longrightarrow>
     distinct (map sync_config_path (append_new registered sps))"
proof (induction sps arbitrary: registered)
  case Nil
  then show ?case by simp
next
  case (Cons sp sps)
  have "distinct (map sync_config_path
      (if pair_in sp registered then registered else registered @ [sp]))"
    using Cons.prems by (auto simp: pair_in_def pair_eq_def list_ex_iff)
  then show ?case using Cons.IH by simp
qed

lemma add_config_loop_distinct:
  "distinct (map sync_config_path registered) \<Longrightarrow>
     distinct (map sync_config_path (fst (add_config_loop lib et_parse registered ps)))"
proof (induction ps arbitrary: registered)
  case Nil
  then show ?case by simp
next
  case (Cons p ps)
  from Cons.prems have "distinct (map sync_config_path (fst (add_config lib et_parse registered p)))"
    by (simp add: add_config_def append_new_distinct split: option.splits parser.splits)
  from Cons.IH [OF this] show ?case by (simp only: add_config_loop_fst)
qed

lemma reachable_model_distinct:
  "reachable_model lib m \<Longrightarrow> distinct (map sync_config_path (model_sync_pairs m))"
proof (induction rule: reachable_model.induct)
  case fresh
  show ?case by simp
next
  case (added m et_parse config_paths)
  then show ?case
    by (simp add: add_configs_def add_config_loop_distinct split_beta)
next
  case (removed m index m')
  let ?ps = "model_sync_pairs m"
  have "distinct (map sync_config_path (take row ?ps @ drop (Suc row) ?ps))" for row
  proof -
    have "map sync_config_path (take row ?ps @ drop (Suc row) ?ps) =
        take row (map sync_config_path ?ps) @ drop (Suc row) (map sync_config_path ?ps)"
      by (simp add: take_map drop_map)
    moreover have "distinct (take row xs @ drop (Suc row) xs)" if "distinct xs"
      for xs :: "string list"
    proof -
      from that have "distinct (take row xs @ drop row xs)" by simp
      then have "set (take row xs) \<inter> set (drop row xs) = {}"
        unfolding distinct_append by blast
      moreover have "set (drop (Suc row) xs) \<subseteq> set (drop row xs)"
        by (rule set_drop_subset_set_drop) simp
      ultimately have "set (take row xs) \<inter> set (drop (Suc row) xs) = {}" by blast
      with that show ?thesis by (simp add: distinct_append)
    qed
    ultimately show ?thesis using removed.IH by simp
  qed
  with removed show ?case
    by (auto simp: remove_config_def split: option.splits if_splits)
qed


text \<open>
  Claim C6.  Adding the same configuration paths a second time changes nothing: the
  registry and the returned success flags are those of the first call.  Two sync pairs
  are equal exactly when their configuration paths are equal, and a parsed pair that
  equals a registered one is skipped.  So no registry that can be reached from the empty
  one holds two pairs with the same \<open>sync_config_path\<close>.
\<close>

theorem add_configs_idempotent:
  "add_configs lib et_parse (fst (add_configs lib et_parse m config_paths)) config_paths
     = add_configs lib et_parse m config_paths \<and>
   pair_eq a b = (sync_config_path a = sync_config_path b) \<and>
   (pair_in sp registered \<longrightarrow>
      append_new registered (sp # sps) = append_new registered sps) \<and>
   (reachable_model lib m \<longrightarrow> distinct (map sync_config_path (model_sync_pairs m)))"
proof (intro conjI impI)
  show "add_configs lib et_parse (fst (add_configs lib et_parse m config_paths)) config_paths
     = add_configs lib et_parse m config_paths"
    by (simp add: add_configs_def split_beta add_config_loop_twice)
  show "pair_eq a b = (sync_config_path a = sync_config_path b)"
    by (simp add: pair_eq_def)
  show "append_new registered (sp # sps) = append_new registered sps" if "pair_in sp registered"
    using that by simp
  show "distinct (map sync_config_path (model_sync_pairs m))" if "reachable_model lib m"
    using that by (rule reachable_model_distinct)
qed

theorem add_configs_idempotent_witness:
  "reachable_model windows (fst (add_configs windows example_et_parse empty_model (OnePath ''/cfg/job.ffs_batch''))) \<and>
   map left_path (model_sync_pairs
     (fst (add_configs windows example_et_parse empty_model (OnePath ''/cfg/job.ffs_batch'')))) = [''/A''] \<and>
   distinct (map sync_config_path (model_sync_pairs
     (fst (add_configs windows example_et_parse empty_model (OnePath ''/cfg/job.ffs_batch''))))) \<and>
   add_configs windows example_et_parse
     (fst (add_configs windows example_et_parse empty_model (OnePath ''/cfg/job.ffs_batch'')))
     (OnePath ''/cfg/job.ffs_batch'')
     = add_configs windows example_et_parse empty_model (OnePath ''/cfg/job.ffs_batch'')"
proof -
  let ?m = "fst (add_configs windows example_et_parse empty_model (OnePath ''/cfg/job.ffs_batch''))"
  have r: "reachable_model windows ?m"
    unfolding empty_model_def by (rule reachable_model.added) (rule reachable_model.fresh)
  have l: "map left_path (model_sync_pairs ?m) = [''/A'']" by code_simp
  note t = add_configs_idempotent [of windows example_et_parse empty_model "OnePath ''/cfg/job.ffs_batch''"]
  note u = add_configs_idempotent [of windows _ ?m, THEN conjunct2, THEN conjunct2, THEN conjunct2,
      rule_format, OF r]
  from t [THEN conjunct1] u r l show ?thesis by simp
qed


section \<open>Properties of the remarks store\<close>

lemma find_update_first_same:
  "List.find P xs = Some r \<Longrightarrow> P (f r) \<Longrightarrow> List.find P (update_first P f xs) = Some (f r)"
  by (induction xs) (auto split: if_splits)

lemma find_update_first_other:
  "List.find Q xs = None \<Longrightarrow> List.find P xs = Some r \<Longrightarrow> Q (f r) \<Longrightarrow>
     List.find Q (update_first P f xs) = Some (f r)"
  by (induction xs) (auto split: if_splits)

lemma find_append_new:
  "List.find Q xs = None \<Longrightarrow> Q y \<Longrightarrow> List.find Q (xs @ [y]) = Some y"
  by (induction xs) (auto split: if_splits)

lemma set_remove_first: "set (remove_first P xs) \<subseteq> set xs"
  by (induction xs) auto

lemma map_update_first_keep:
  "(\<And>x. k (f x) = k x) \<Longrightarrow> map k (update_first P f xs) = map k xs"
  by (induction xs) auto

lemma distinct_remove_first:
  "distinct (map k xs) \<Longrightarrow> distinct (map k (remove_first P xs))"
proof (induction xs)
  case Nil
  show ?case by simp
next
  case (Cons x xs)
  have "k ` set (remove_first P xs) \<subseteq> k ` set xs"
    using set_remove_first [of P xs] by blast
  with Cons show ?case by auto
qed

lemma remove_first_key_gone:
  "distinct (map k xs) \<Longrightarrow> \<forall>r\<in>set (remove_first (\<lambda>r. k r = n) xs). k r \<noteq> n"
proof (induction xs)
  case Nil
  show ?case by simp
next
  case (Cons x xs)
  show ?case
  proof (cases "k x = n")
    case True
    with Cons.prems have "n \<notin> k ` set xs" by simp
    then have "\<forall>r\<in>set xs. k r \<noteq> n" by blast
    with True show ?thesis by simp
  next
    case False
    with Cons show ?thesis by simp
  qed
qed

lemma distinct_update_first_new_key:
  "distinct (map k xs) \<Longrightarrow> \<forall>x\<in>set xs. k x \<noteq> n \<Longrightarrow> (\<And>x. k (f x) = n) \<Longrightarrow>
     distinct (map k (update_first P f xs))"
proof (induction xs)
  case Nil
  show ?case by simp
next
  case (Cons x xs)
  show ?case
  proof (cases "P x")
    case True
    with Cons.prems show ?thesis by auto
  next
    case False
    have "set (map k (update_first P f xs)) \<subseteq> insert n (set (map k xs))"
    proof (induction xs)
      case Nil
      show ?case by simp
    next
      case (Cons y ys)
      then show ?case using \<open>\<And>x. k (f x) = n\<close> by auto
    qed
    with False Cons show ?thesis by auto
  qed
qed

lemma delete_remarks_distinct:
  "distinct (map rec_file_path rows) \<Longrightarrow>
     distinct (map rec_file_path (fst (delete_remarks env rows fpath)))"
  by (simp add: delete_remarks_def Let_def distinct_remove_first split: option.splits)

lemma set_remarks_distinct:
  assumes "distinct (map rec_file_path rows)"
  shows "distinct (map rec_file_path (fst (set_remarks env rows fpath txt)))"
proof (cases "strip txt = [] \<or> \<not> db_available env")
  case True
  with assms show ?thesis
    by (auto simp: set_remarks_def Let_def delete_remarks_distinct)
next
  case False
  let ?n = "resolve_posix env fpath" and ?h = "calculate_file_hash env fpath"
  show ?thesis
  proof (cases "List.find (\<lambda>r. rec_file_path r = ?n) rows")
    case (Some r)
    with False assms show ?thesis
      by (simp add: set_remarks_def Let_def map_update_first_keep)
  next
    case None
    then have fresh: "\<forall>x\<in>set rows. rec_file_path x \<noteq> ?n"
      by (simp add: find_None_iff)
    show ?thesis
    proof (cases "if ?h \<noteq> [] then List.find (\<lambda>r. rec_file_hash r = ?h) rows else None")
      case inner: None
      with None False assms fresh show ?thesis
        by (auto simp: set_remarks_def Let_def)
    next
      case inner: (Some r)
      have "distinct (map rec_file_path
          (update_first (\<lambda>r. rec_file_hash r = ?h)
            (\<lambda>r. r\<lparr>rec_file_path := ?n, rec_remarks := strip txt, updated_at := now env\<rparr>) rows))"
        by (rule distinct_update_first_new_key [OF assms fresh]) simp
      with None False inner show ?thesis
        by (simp add: set_remarks_def Let_def)
    qed
  qed
qed

lemma reachable_store_distinct:
  "reachable_store rows \<Longrightarrow> distinct (map rec_file_path rows)"
  by (induction rule: reachable_store.induct)
     (simp_all add: set_remarks_distinct delete_remarks_distinct)

lemma set_then_get:
  assumes ne: "strip txt \<noteq> []" and ok: "snd (set_remarks env rows fpath txt)"
  shows "get_remarks env (fst (set_remarks env rows fpath txt)) fpath = strip txt"
proof -
  let ?n = "resolve_posix env fpath" and ?h = "calculate_file_hash env fpath"
  from ne ok have db: "db_available env"
    by (auto simp: set_remarks_def Let_def split: if_splits)
  show ?thesis
  proof (cases "List.find (\<lambda>r. rec_file_path r = ?n) rows")
    case (Some r)
    then have "rec_file_path r = ?n" by (auto simp: find_Some_iff)
    then have "List.find (\<lambda>r. rec_file_path r = ?n)
        (update_first (\<lambda>r. rec_file_path r = ?n)
          (\<lambda>r. r\<lparr>rec_remarks := strip txt, updated_at := now env\<rparr>) rows)
        = Some (r\<lparr>rec_remarks := strip txt, updated_at := now env\<rparr>)"
      by (intro find_update_first_same [OF Some]) simp
    with Some ne db show ?thesis
      by (simp add: set_remarks_def get_remarks_def get_remarks_record_def Let_def)
  next
    case None
    show ?thesis
    proof (cases "if ?h \<noteq> [] then List.find (\<lambda>r. rec_file_hash r = ?h) rows else None")
      case inner: None
      let ?new = "\<lparr>rec_id = new_id rows, rec_file_path = ?n, rec_file_hash = ?h,
          rec_remarks = strip txt, created_at = now env, updated_at = now env\<rparr>"
      have "List.find (\<lambda>r. rec_file_path r = ?n) (rows @ [?new]) = Some ?new"
        by (rule find_append_new [OF None]) simp
      with None inner ne db show ?thesis
        by (simp add: set_remarks_def get_remarks_def get_remarks_record_def Let_def)
    next
      case inner: (Some r)
      then have f: "List.find (\<lambda>r. rec_file_hash r = ?h) rows = Some r"
        by (simp split: if_splits)
      let ?f = "\<lambda>r. r\<lparr>rec_file_path := ?n, rec_remarks := strip txt, updated_at := now env\<rparr>"
      have "List.find (\<lambda>r. rec_file_path r = ?n)
          (update_first (\<lambda>r. rec_file_hash r = ?h) ?f rows) = Some (?f r)"
        by (rule find_update_first_other [OF None f]) simp
      with None inner ne db show ?thesis
        by (simp add: set_remarks_def get_remarks_def get_remarks_record_def Let_def)
    qed
  qed
qed

lemma delete_removes_path:
  assumes d: "distinct (map rec_file_path rows)" and db: "db_available env"
  shows "\<forall>r\<in>set (fst (delete_remarks env rows fpath)). rec_file_path r \<noteq> resolve_posix env fpath"
proof (cases "List.find (\<lambda>r. rec_file_path r = resolve_posix env fpath) rows")
  case (Some r)
  with db remove_first_key_gone [OF d, of "resolve_posix env fpath"] show ?thesis
    by (simp add: delete_remarks_def Let_def)
next
  case None
  then have fresh: "\<forall>x\<in>set rows. rec_file_path x \<noteq> resolve_posix env fpath"
    by (simp add: find_None_iff)
  have "set (fst (delete_remarks env rows fpath)) \<subseteq> set rows"
    using set_remove_first [of _ rows]
    by (auto simp: delete_remarks_def Let_def split: option.splits)
  with fresh show ?thesis by blast
qed

lemma get_without_path_record:
  assumes "\<forall>r\<in>set rows. rec_file_path r \<noteq> resolve_posix env fpath"
  shows "get_remarks env rows fpath =
     (if db_available env \<and> calculate_file_hash env fpath \<noteq> [] then
        (case List.find (\<lambda>r. rec_file_hash r = calculate_file_hash env fpath) rows of
           None \<Rightarrow> []
         | Some r \<Rightarrow> rec_remarks r)
      else [])"
proof -
  from assms have "List.find (\<lambda>r. rec_file_path r = resolve_posix env fpath) rows = None"
    by (simp add: find_None_iff)
  then show ?thesis
    by (simp add: get_remarks_def get_remarks_record_def Let_def split: option.splits)
qed


lemma delete_changed_returns_true:
  "fst (delete_remarks env rows fpath) \<noteq> rows \<Longrightarrow> snd (delete_remarks env rows fpath)"
  by (auto simp: delete_remarks_def Let_def split: option.splits if_splits)

text \<open>
  Claim C7.  \<open>delete_remarks\<close> removes the first row with the normalized path, else
  the first row with the content hash of the file, and a call that removes a row returns
  \<open>True\<close>.  The converse fails: for a readable file without any row the hash branch
  returns \<open>True\<close> although no row was removed, as on the empty table here.
\<close>

theorem delete_true_without_removal:
  "delete_remarks env_before [] ''/A/doc.txt'' = ([], True)"
  by code_simp

text \<open>
  Claim C8, as the code has it.  \<open>set_remarks\<close> strips the text as \<open>str.strip\<close>
  does, of every leading and trailing Unicode white-space character.  After a successful
  \<open>set_remarks\<close> with a text whose stripped form is not empty, \<open>get_remarks\<close>
  returns the stripped text; \<open>hello\<close> is its own stripped form.  With a text whose stripped form is empty, \<open>set_remarks\<close>
  is \<open>delete_remarks\<close>.  After it, on a table the operations can produce and with the
  database answering, no row with the normalized path of the file remains, and
  \<open>get_remarks\<close> returns what the lookup by content hash finds: the empty string when
  no remaining row has the hash of the file, else the remarks of the first such row.
\<close>

theorem remarks_round_trip:
  fixes env :: remarks_env and rows :: "FileRemarks list" and fpath remark :: string
  shows
    "(strip remark \<noteq> [] \<and> snd (set_remarks env rows fpath remark) \<longrightarrow>
        get_remarks env (fst (set_remarks env rows fpath remark)) fpath = strip remark) \<and>
     strip ''hello'' = ''hello'' \<and>
     (strip remark = [] \<longrightarrow> set_remarks env rows fpath remark = delete_remarks env rows fpath) \<and>
     (strip remark = [] \<and> reachable_store rows \<and> db_available env \<longrightarrow>
        (\<forall>r\<in>set (fst (set_remarks env rows fpath remark)).
           rec_file_path r \<noteq> resolve_posix env fpath) \<and>
        get_remarks env (fst (set_remarks env rows fpath remark)) fpath =
          (if calculate_file_hash env fpath \<noteq> [] then
             (case List.find (\<lambda>r. rec_file_hash r = calculate_file_hash env fpath)
                     (fst (set_remarks env rows fpath remark)) of
                None \<Rightarrow> []
              | Some r \<Rightarrow> rec_remarks r)
           else []))"
proof (intro conjI impI)
  assume "strip remark \<noteq> [] \<and> snd (set_remarks env rows fpath remark)"
  then show "get_remarks env (fst (set_remarks env rows fpath remark)) fpath = strip remark"
    by (simp add: set_then_get)
next
  show "strip ''hello'' = ''hello''" by code_simp
next
  assume "strip remark = []"
  then show "set_remarks env rows fpath remark = delete_remarks env rows fpath"
    by (simp add: set_remarks_def)
next
  assume a: "strip remark = [] \<and> reachable_store rows \<and> db_available env"
  then have eq: "set_remarks env rows fpath remark = delete_remarks env rows fpath"
    by (simp add: set_remarks_def)
  from a have d: "distinct (map rec_file_path rows)" by (simp add: reachable_store_distinct)
  from a have db: "db_available env" by simp
  show gone: "\<forall>r\<in>set (fst (set_remarks env rows fpath remark)).
           rec_file_path r \<noteq> resolve_posix env fpath"
    unfolding eq by (rule delete_removes_path [OF d db])
  from get_without_path_record [OF gone] db
  show "get_remarks env (fst (set_remarks env rows fpath remark)) fpath =
          (if calculate_file_hash env fpath \<noteq> [] then
             (case List.find (\<lambda>r. rec_file_hash r = calculate_file_hash env fpath)
                     (fst (set_remarks env rows fpath remark)) of
                None \<Rightarrow> []
              | Some r \<Rightarrow> rec_remarks r)
           else [])"
    by simp
qed

theorem remarks_round_trip_witness:
  "snd (set_remarks env_before [] ''/A/doc.txt'' ''hello'') \<and>
   get_remarks env_before (fst (set_remarks env_before [] ''/A/doc.txt'' ''hello'')) ''/A/doc.txt''
     = ''hello'' \<and>
   reachable_store (fst (set_remarks env_before [] ''/A/doc.txt'' ''hello'')) \<and>
   fst (set_remarks env_before (fst (set_remarks env_before [] ''/A/doc.txt'' ''hello''))
     ''/A/doc.txt'' []) = [] \<and>
   get_remarks env_before
     (fst (set_remarks env_before (fst (set_remarks env_before [] ''/A/doc.txt'' ''hello''))
        ''/A/doc.txt'' [])) ''/A/doc.txt'' = [] \<and>
   strip [CHR 0x20, CHR 0xE3, CHR 0x80, CHR 0x80, CHR 0xC2, CHR 0xA0, CHR 0x0A] = [] \<and>
   set_remarks env_before (fst (set_remarks env_before [] ''/A/doc.txt'' ''hello''))
       ''/A/doc.txt'' [CHR 0x20, CHR 0xE3, CHR 0x80, CHR 0x80, CHR 0xC2, CHR 0xA0, CHR 0x0A]
     = delete_remarks env_before (fst (set_remarks env_before [] ''/A/doc.txt'' ''hello''))
         ''/A/doc.txt''"
proof -
  let ?rows = "fst (set_remarks env_before [] ''/A/doc.txt'' ''hello'')"
  have s: "strip ''hello'' \<noteq> [] \<and> snd (set_remarks env_before [] ''/A/doc.txt'' ''hello'')"
    by code_simp
  have r: "reachable_store ?rows"
    by (rule reachable_store.after_set) (rule reachable_store.empty_store)
  have e: "fst (set_remarks env_before ?rows ''/A/doc.txt'' []) = []" by code_simp
  have g: "get_remarks env_before [] ''/A/doc.txt'' = []" by code_simp
  note t = remarks_round_trip [of "''hello''" env_before "[]" "''/A/doc.txt''"]
  note h = t [THEN conjunct2, THEN conjunct1]
  have w: "strip [CHR 0x20, CHR 0xE3, CHR 0x80, CHR 0x80, CHR 0xC2, CHR 0xA0, CHR 0x0A] = []"
    by code_simp
  note d = remarks_round_trip
    [of "[CHR 0x20, CHR 0xE3, CHR 0x80, CHR 0x80, CHR 0xC2, CHR 0xA0, CHR 0x0A]"
        env_before ?rows "''/A/doc.txt''",
     THEN conjunct2, THEN conjunct2, THEN conjunct1, rule_format, OF w]
  from t [THEN conjunct1, rule_format, OF s] s r e g h w d show ?thesis by simp
qed

text \<open>
  The claim as stated fails when another row carries the hash of the file: a remark is
  set on \<open>/A/doc.txt\<close>, the file is edited, its copy gets a remark of its own, and
  after clearing the remark of \<open>/A/doc.txt\<close> the lookup returns the remark of the
  copy.
\<close>

theorem remark_of_copy_counterexample:
  "strip [] = [] \<and>
   snd (set_remarks env_after
     (fst (set_remarks env_after (fst (set_remarks env_before [] ''/A/doc.txt'' ''a''))
        ''/A/copy.txt'' ''b''))
     ''/A/doc.txt'' []) \<and>
   get_remarks env_after
     (fst (set_remarks env_after
        (fst (set_remarks env_after (fst (set_remarks env_before [] ''/A/doc.txt'' ''a''))
           ''/A/copy.txt'' ''b''))
        ''/A/doc.txt'' []))
     ''/A/doc.txt'' = ''b''"
  by code_simp

end
